theory Spec2Isabelle
  imports Main "HOL-Library.AList" "HOL-Library.Multiset"
begin

section \<open>JavaScript objects used as tables\<close>

text \<open>
  The provider keeps its dictionaries in \<^verbatim>\<open>spellCheckerTable = {}\<close> and its mount counts in
  \<^verbatim>\<open>fileMountRefCount = {}\<close>: plain object literals. Reading \<^verbatim>\<open>obj[k]\<close> on such an object
  finds the object's own property \<open>k\<close> when there is one and otherwise the member of
  \<^verbatim>\<open>Object.prototype\<close> of that name, when there is one; only then is the result
  \<^verbatim>\<open>undefined\<close>. The source tests \<^verbatim>\<open>!obj[k]\<close> and \<^verbatim>\<open>!!obj[k]\<close>, so the three
  cases are kept apart.

  An object is modelled by its own enumerable properties in creation order.
\<close>

datatype 'a property = Own 'a | Inherited | Undefined

type_synonym 'a js_object = "(string \<times> 'a) list"

text \<open>The members of \<^verbatim>\<open>Object.prototype\<close>: functions, and the prototype object itself
  under \<^verbatim>\<open>__proto__\<close>. Every one of them is truthy.\<close>

definition object_prototype_keys :: "string list" where
  "object_prototype_keys =
     [''constructor'', ''__defineGetter__'', ''__defineSetter__'', ''hasOwnProperty'',
      ''__lookupGetter__'', ''__lookupSetter__'', ''isPrototypeOf'', ''propertyIsEnumerable'',
      ''toString'', ''valueOf'', ''__proto__'', ''toLocaleString'']"

definition js_get :: "'a js_object \<Rightarrow> string \<Rightarrow> 'a property" where
  "js_get obj k =
     (case map_of obj k of
        Some v \<Rightarrow> Own v
      | None \<Rightarrow> if k \<in> set object_prototype_keys then Inherited else Undefined)"

text \<open>\<^verbatim>\<open>obj[k] = v\<close> on a key that is no member of the prototype: an own property keeps its
  place, a new one is added last. \<^verbatim>\<open>delete obj[k]\<close> removes the own property.\<close>

definition js_set :: "'a js_object \<Rightarrow> string \<Rightarrow> 'a \<Rightarrow> 'a js_object" where
  "js_set obj k v = AList.update k v obj"

definition js_delete :: "'a js_object \<Rightarrow> string \<Rightarrow> 'a js_object" where
  "js_delete obj k = AList.delete k obj"

text \<open>\<^verbatim>\<open>Object.keys(obj)\<close>: the own keys that are array indices (canonical decimal numerals
  below \<open>2^32 - 1\<close>) in ascending numeric order, then every other key in creation order.\<close>

definition is_digit :: "char \<Rightarrow> bool" where
  "is_digit c = (48 \<le> (of_char c :: nat) \<and> (of_char c :: nat) \<le> 57)"

definition digits_value :: "string \<Rightarrow> nat" where
  "digits_value s = foldl (\<lambda>n c. 10 * n + ((of_char c :: nat) - 48)) 0 s"

definition is_array_index :: "string \<Rightarrow> bool" where
  "is_array_index s =
     (s \<noteq> [] \<and> list_all is_digit s \<and> (length s = 1 \<or> hd s \<noteq> CHR ''0'')
      \<and> digits_value s < 4294967295)"

definition object_entries :: "'a js_object \<Rightarrow> (string \<times> 'a) list" where
  "object_entries obj =
     sort_key (\<lambda>p. digits_value (fst p)) (filter (\<lambda>p. is_array_index (fst p)) obj)
     @ filter (\<lambda>p. \<not> is_array_index (fst p)) obj"

definition object_keys :: "'a js_object \<Rightarrow> string list" where
  "object_keys obj = map fst (object_entries obj)"

section \<open>JavaScript numbers\<close>

text \<open>
  A number is a double. Every number the provider computes with is an integer: the readings
  of \<^verbatim>\<open>Date.now()\<close> are time values, integers of magnitude at most \<open>8.64 * 10^15\<close>, and the
  provider only subtracts two readings and adds such differences up. Below \<open>2^53\<close> every
  integer is a double; from there on the doubles are the multiples of a power of two that
  keep a significand below \<open>2^53\<close>. The model keeps numbers as integers and rounds the
  result of each subtraction and addition to the nearest double, a tie going to the even
  significand, as the arithmetic of doubles does. With readings that are time values a sum
  stays far below the largest double (it stops growing once the distance between
  neighbouring doubles passes twice the largest difference of two readings), so an infinite
  result is left out.
\<close>

definition significand_limit :: nat where
  "significand_limit = 2 ^ 53"

text \<open>The exponent of the distance between the doubles around \<open>n\<close>.\<close>

function ulp_exp :: "nat \<Rightarrow> nat" where
  "ulp_exp n = (if n < significand_limit then 0 else Suc (ulp_exp (n div 2)))"
  by pat_completeness auto

termination
  by (relation "measure (\<lambda>n. n)") (auto simp: significand_limit_def)

declare ulp_exp.simps [simp del]

definition round_nat :: "nat \<Rightarrow> nat" where
  "round_nat n =
     (let u = 2 ^ ulp_exp n; q = n div u; r = n mod u
      in if u < 2 * r \<or> (2 * r = u \<and> odd q) then (q + 1) * u else q * u)"

definition to_double :: "int \<Rightarrow> int" where
  "to_double x = (if x < 0 then - int (round_nat (nat (- x))) else int (round_nat (nat x)))"

definition is_double :: "int \<Rightarrow> bool" where
  "is_double x = (to_double x = x)"

section \<open>The engine, the host and the calls made to them\<close>

text \<open>
  The spell-check engine (\<^verbatim>\<open>hunspell-asm\<close>), Node's \<^verbatim>\<open>path\<close> module, \<^verbatim>\<open>unixify\<close>,
  the logger and Electron's \<^verbatim>\<open>webFrame\<close> are not part of the repository. What they return
  is a parameter of the model (the record \<open>env\<close>); every call the provider makes to the
  engine, the logger and the host is appended to a trace, in the order the source makes it.
\<close>

type_synonym array_buffer = "nat list"

datatype level = Debug | Info | Warn | Error

text \<open>The callback handed to \<^verbatim>\<open>webFrame.setSpellCheckProvider\<close>: the closure \<^verbatim>\<open>provider\<close>
  built by \<^verbatim>\<open>attach(key, checkAllDictionaries)\<close>, which captures both arguments and
  \<^verbatim>\<open>this\<close>, or the closure \<^verbatim>\<open>() => true\<close> of \<^verbatim>\<open>unloadDictionary\<close>.\<close>

datatype callback = Provider string bool | AlwaysTrue

datatype effect =
    Log level
  | LoadModule
  | MountDirectory string
  | MountBuffer array_buffer
  | Unmount string
  | Create string string
  | DisposeHunspell string string
  | Spell string string
  | Suggest string string
  | SetSpellCheckProvider string callback

record Hunspell =
  spell :: "string \<Rightarrow> bool"
  suggest :: "string \<Rightarrow> string list"

record env =
  renderer :: bool
  dirname :: "string \<Rightarrow> string"
  basename :: "string \<Rightarrow> string"
  join :: "string \<Rightarrow> string \<Rightarrow> string"
  unixify :: "string \<Rightarrow> string"
  mountDirectory :: "string \<Rightarrow> string"
  mountBuffer :: "effect list \<Rightarrow> array_buffer \<Rightarrow> string"
  create :: "string \<Rightarrow> string \<Rightarrow> Hunspell"

section \<open>The provider's state\<close>

text \<open>The disposer stored with an entry is one of the closures \<^verbatim>\<open>unmountFile\<close> and
  \<^verbatim>\<open>unmountBuffer\<close> of \<^verbatim>\<open>assignSpellchecker\<close>; both capture the mounted affix and
  dictionary paths.\<close>

datatype disposer = UnmountFile string string | UnmountBuffer string string

record SpellChecker =
  spellChecker :: Hunspell
  uptime :: int
  dispose :: disposer

text \<open>A value of the ref-count table as the source's tests see it: a number, a non-empty
  string (what \<^verbatim>\<open>+ 1\<close> makes of a function), or an inherited function or object.\<close>

datatype refcount = Num int | Str | Obj

datatype error = NotAvailable string | InvalidKey string | CannotLoad | TypeError

datatype 'a result = Return 'a | Throw error

text \<open>
  \<open>currentSpellCheckerStartTime\<close> is \<open>None\<close> for \<^verbatim>\<open>Number.NEGATIVE_INFINITY\<close>, the one value
  of the field that is not an integer. \<open>hunspellFactory\<close> says whether \<^verbatim>\<open>initialize\<close> has
  set the field. \<open>webFrameProvider\<close> is the host's side: the callback last installed.
\<close>

record state =
  hunspellFactory :: bool
  spellCheckerTable :: "SpellChecker js_object"
  currentSpellCheckerKey :: "string option"
  verboseLog :: bool
  fileMountRefCount :: "refcount js_object"
  currentSpellCheckerStartTime :: "int option"
  webFrameProvider :: "(string \<times> callback) option"
  trace :: "effect list"

definition initial :: state where
  "initial =
     \<lparr>hunspellFactory = False, spellCheckerTable = [], currentSpellCheckerKey = None,
      verboseLog = False, fileMountRefCount = [], currentSpellCheckerStartTime = None,
      webFrameProvider = None, trace = []\<rparr>"

definition emit :: "effect \<Rightarrow> state \<Rightarrow> state" where
  "emit e s = s\<lparr>trace := trace s @ [e]\<rparr>"

definition log :: "level \<Rightarrow> state \<Rightarrow> state" where
  "log l s = emit (Log l) s"

definition log_verbose :: "level \<Rightarrow> state \<Rightarrow> state" where
  "log_verbose l s = (if verboseLog s then log l s else s)"

section \<open>The provider's operations\<close>

text \<open>
  Each operation takes the state and returns the state it leaves, with what it returns or
  throws. A throw keeps the state as mutated up to the throwing statement.
\<close>

subsection \<open>\<^verbatim>\<open>initialize\<close> and the \<^verbatim>\<open>verboseLog\<close> setter\<close>

definition initialize :: "state \<Rightarrow> state" where
  "initialize s =
     (if hunspellFactory s then s
      else log Info ((emit LoadModule (log Info s))\<lparr>hunspellFactory := True\<rparr>))"

definition set_verboseLog :: "state \<Rightarrow> bool \<Rightarrow> state" where
  "set_verboseLog s v = s\<lparr>verboseLog := v\<rparr>"

subsection \<open>\<^verbatim>\<open>availableDictionaries\<close>\<close>

text \<open>\<^verbatim>\<open>orderBy(array, ['uptime'], ['desc'])\<close> of lodash: a stable sort, largest first.\<close>

definition orderBy_desc :: "('a \<Rightarrow> int) \<Rightarrow> 'a list \<Rightarrow> 'a list" where
  "orderBy_desc f xs = sort_key (\<lambda>v. - f v) xs"

text \<open>For a key that \<^verbatim>\<open>Object.keys\<close> lists, \<^verbatim>\<open>this.spellCheckerTable[key]\<close> is that own
  property, so the getter maps over the own entries.\<close>

definition availableDictionaries :: "state \<Rightarrow> string list" where
  "availableDictionaries s =
     (let array = map (\<lambda>(key, c). (key, uptime c)) (object_entries (spellCheckerTable s))
      in map fst (orderBy_desc snd array))"

definition selectedDictionary :: "state \<Rightarrow> string option" where
  "selectedDictionary s = currentSpellCheckerKey s"

subsection \<open>\<^verbatim>\<open>setProvider\<close>, \<^verbatim>\<open>attach\<close> and the attached callback\<close>

definition setProvider :: "env \<Rightarrow> state \<Rightarrow> string \<Rightarrow> callback \<Rightarrow> state" where
  "setProvider e s key provider =
     (if renderer e
      then (emit (SetSpellCheckProvider key provider) s)\<lparr>webFrameProvider := Some (key, provider)\<rparr>
      else log Warn s)"

definition attach :: "env \<Rightarrow> state \<Rightarrow> string \<Rightarrow> bool \<Rightarrow> state" where
  "attach e s key checkAllDictionaries = setProvider e s key (Provider key checkAllDictionaries)"

text \<open>The \<^verbatim>\<open>for (const dictKey of otherDictionaries)\<close> loop of the callback.\<close>

fun checkOthers :: "state \<Rightarrow> string \<Rightarrow> string list \<Rightarrow> bool result \<times> state" where
  "checkOthers s text [] = (Return False, s)"
| "checkOthers s text (dictKey # rest) =
     (case js_get (spellCheckerTable s) dictKey of
        Own c \<Rightarrow>
          (let result = spell (spellChecker c) text;
               s1 = log_verbose Debug (emit (Spell dictKey text) s)
           in if result then (Return True, s1) else checkOthers s1 text rest)
      | Inherited \<Rightarrow> (Throw TypeError, s)
      | Undefined \<Rightarrow> (Throw TypeError, s))"

text \<open>The closure \<^verbatim>\<open>provider\<close> of \<^verbatim>\<open>attach\<close>, run on the state at the time of the call: it
  reads \<^verbatim>\<open>this.spellCheckerTable\<close> and \<^verbatim>\<open>this._verboseLog\<close> when it is invoked.\<close>

definition provider :: "state \<Rightarrow> string \<Rightarrow> bool \<Rightarrow> string \<Rightarrow> bool result \<times> state" where
  "provider s key checkAllDictionaries text =
     (case js_get (spellCheckerTable s) key of
        Own primaryChecker \<Rightarrow>
          (let primaryResult = spell (spellChecker primaryChecker) text;
               s1 = log_verbose Debug (emit (Spell key text) s);
               otherDictionaries = filter (\<lambda>x. x \<noteq> key) (object_keys (spellCheckerTable s))
           in if \<not> checkAllDictionaries \<or> otherDictionaries = [] \<or> primaryResult
              then (Return primaryResult, s1)
              else checkOthers (log Debug s1) text otherDictionaries)
      | Inherited \<Rightarrow> (Throw TypeError, s)
      | Undefined \<Rightarrow> (Throw TypeError, s))"

definition invoke :: "state \<Rightarrow> callback \<Rightarrow> string \<Rightarrow> bool result \<times> state" where
  "invoke s cb text =
     (case cb of
        Provider key checkAllDictionaries \<Rightarrow> provider s key checkAllDictionaries text
      | AlwaysTrue \<Rightarrow> (Return True, s))"

subsection \<open>\<^verbatim>\<open>switchDictionary\<close>\<close>

text \<open>Lines 93 to 104: the elapsed time goes to the entry of the key selected so far. The
  subtraction and the \<^verbatim>\<open>+=\<close> are operations on doubles.
  When the lookup finds an inherited member, the \<^verbatim>\<open>+=\<close> sets a property \<^verbatim>\<open>uptime\<close> of that
  shared function or object to \<^verbatim>\<open>NaN\<close> and leaves the table as it is; \<^verbatim>\<open>NaN\<close> is falsy, so
  no test of the source tells it from \<^verbatim>\<open>undefined\<close>.\<close>

definition addUptime :: "state \<Rightarrow> int \<Rightarrow> unit result \<times> state" where
  "addUptime s now =
     (case currentSpellCheckerStartTime s of
        None \<Rightarrow> (Return (), s)
      | Some startTime \<Rightarrow>
          (let timePassed = to_double (now - startTime)
           in case currentSpellCheckerKey s of
                None \<Rightarrow> (Return (), s)
              | Some currentKey \<Rightarrow>
                  if currentKey = [] then (Return (), s)
                  else
                    (case js_get (spellCheckerTable s) currentKey of
                       Own c \<Rightarrow>
                         (Return (),
                          log Info
                            (s\<lparr>spellCheckerTable :=
                                 js_set (spellCheckerTable s) currentKey
                                   (c\<lparr>uptime := to_double (uptime c + timePassed)\<rparr>)\<rparr>))
                     | Inherited \<Rightarrow> (Return (), log Info s)
                     | Undefined \<Rightarrow> (Throw TypeError, s))))"

text \<open>\<open>now1\<close> and \<open>now2\<close> are what the two calls of \<^verbatim>\<open>Date.now()\<close> return (the first is made
  only when the start time is an integer).\<close>

definition switchDictionary ::
  "env \<Rightarrow> state \<Rightarrow> string \<Rightarrow> bool \<Rightarrow> int \<Rightarrow> int \<Rightarrow> unit result \<times> state" where
  "switchDictionary e s key checkAllDictionaries now1 now2 =
     (if key = [] \<or> js_get (spellCheckerTable s) key = Undefined
      then (Throw (NotAvailable key), s)
      else
        (case addUptime (log Info s) now1 of
           (Throw err, s1) \<Rightarrow> (Throw err, s1)
         | (Return u, s1) \<Rightarrow>
             (Return (),
              attach e
                (s1\<lparr>currentSpellCheckerStartTime := Some now2,
                    currentSpellCheckerKey := Some key\<rparr>)
                key checkAllDictionaries)))"

subsection \<open>\<^verbatim>\<open>getSuggestion\<close>\<close>

definition getSuggestion :: "state \<Rightarrow> string \<Rightarrow> string list result \<times> state" where
  "getSuggestion s text =
     (case currentSpellCheckerKey s of
        None \<Rightarrow> (Return [], log Warn s)
      | Some k \<Rightarrow>
          if k = [] then (Return [], log Warn s)
          else
            (case js_get (spellCheckerTable s) k of
               Undefined \<Rightarrow> (Return [], log Error s)
             | Inherited \<Rightarrow> (Throw TypeError, s)
             | Own checker \<Rightarrow>
                 (let ret = suggest (spellChecker checker) text
                  in (Return ret, log_verbose Debug (emit (Suggest k text) s)))))"

subsection \<open>Mounting\<close>

datatype source = Path string | View array_buffer

record mounted =
  affPath :: string
  dicPath :: string
  buffer :: bool

definition mountBufferDictionary ::
  "env \<Rightarrow> state \<Rightarrow> array_buffer \<Rightarrow> array_buffer \<Rightarrow> mounted \<times> state" where
  "mountBufferDictionary e s dicBuffer affBuffer =
     (let a = mountBuffer e (trace s) affBuffer;
          s1 = emit (MountBuffer affBuffer) s;
          d = mountBuffer e (trace s1) dicBuffer;
          s2 = emit (MountBuffer dicBuffer) s1
      in (\<lparr>affPath = a, dicPath = d, buffer = True\<rparr>, s2))"

text \<open>The closure \<^verbatim>\<open>getMountedPath\<close>: what it returns, and the call it makes.\<close>

definition getMountedPath :: "env \<Rightarrow> string \<Rightarrow> string" where
  "getMountedPath e filePath =
     (let mountedDir = mountDirectory e (dirname e filePath)
      in unixify e (join e mountedDir (basename e filePath)))"

definition mountFileDictionary ::
  "env \<Rightarrow> state \<Rightarrow> string \<Rightarrow> string \<Rightarrow> mounted \<times> state" where
  "mountFileDictionary e s dicFilePath affFilePath =
     (let a = getMountedPath e affFilePath;
          s1 = emit (MountDirectory (dirname e affFilePath)) s;
          d = getMountedPath e dicFilePath;
          s2 = emit (MountDirectory (dirname e dicFilePath)) s1
      in (\<lparr>affPath = a, dicPath = d, buffer = False\<rparr>, s2))"

subsection \<open>\<^verbatim>\<open>assignSpellchecker\<close> and its closures\<close>

definition increaseRefCount :: "env \<Rightarrow> state \<Rightarrow> string \<Rightarrow> state" where
  "increaseRefCount e s filePath =
     (let dir = dirname e filePath;
          rc = fileMountRefCount s
      in log Debug
           (case js_get rc dir of
              Own (Num n) \<Rightarrow>
                s\<lparr>fileMountRefCount := js_set rc dir (Num (if n \<noteq> 0 then n + 1 else 1))\<rparr>
            | Own Str \<Rightarrow> s\<lparr>fileMountRefCount := js_set rc dir Str\<rparr>
            | Own Obj \<Rightarrow> s\<lparr>fileMountRefCount := js_set rc dir Str\<rparr>
            | Inherited \<Rightarrow>
                if dir = ''__proto__'' then s
                else s\<lparr>fileMountRefCount := js_set rc dir Str\<rparr>
            | Undefined \<Rightarrow> s\<lparr>fileMountRefCount := js_set rc dir (Num 1)\<rparr>))"

definition decreaseRefCount :: "env \<Rightarrow> state \<Rightarrow> string \<Rightarrow> refcount \<times> state" where
  "decreaseRefCount e s filePath =
     (let dir = dirname e filePath;
          rc = fileMountRefCount s;
          rc1 = (case js_get rc dir of
                   Own (Num n) \<Rightarrow> if n > 0 then js_set rc dir (Num (n - 1)) else rc
                 | Own Str \<Rightarrow> rc
                 | Own Obj \<Rightarrow> rc
                 | Inherited \<Rightarrow> rc
                 | Undefined \<Rightarrow> rc);
          rc2 = (if js_get rc1 dir = Own (Num 0) then js_delete rc1 dir else rc1);
          refCount = (case js_get rc2 dir of
                        Own v \<Rightarrow> v
                      | Inherited \<Rightarrow> Obj
                      | Undefined \<Rightarrow> Num 0)
      in (refCount, log Debug (s\<lparr>fileMountRefCount := rc2\<rparr>)))"

text \<open>The body of \<^verbatim>\<open>paths.forEach\<close> in \<^verbatim>\<open>unmountFile\<close>.\<close>

definition unmountPath :: "env \<Rightarrow> state \<Rightarrow> string \<Rightarrow> state" where
  "unmountPath e s p =
     (case decreaseRefCount e s p of
        (ref, s1) \<Rightarrow> if ref = Num 0 then emit (Unmount (dirname e p)) s1 else s1)"

definition unmountFile :: "env \<Rightarrow> state \<Rightarrow> string \<Rightarrow> string \<Rightarrow> state" where
  "unmountFile e s a d =
     emit (DisposeHunspell a d) (unmountPath e (unmountPath e s a) d)"

definition unmountBuffer :: "state \<Rightarrow> string \<Rightarrow> string \<Rightarrow> state" where
  "unmountBuffer s a d =
     log Debug (emit (DisposeHunspell a d) (log Debug (emit (Unmount d) (emit (Unmount a) s))))"

definition run_dispose :: "env \<Rightarrow> state \<Rightarrow> disposer \<Rightarrow> state" where
  "run_dispose e s f =
     (case f of
        UnmountFile a d \<Rightarrow> unmountFile e s a d
      | UnmountBuffer a d \<Rightarrow> unmountBuffer s a d)"

definition assignSpellchecker :: "env \<Rightarrow> state \<Rightarrow> string \<Rightarrow> mounted \<Rightarrow> state" where
  "assignSpellchecker e s key m =
     (let a = affPath m;
          d = dicPath m;
          s1 = emit (Create a d) s;
          s2 = (if buffer m then s1 else increaseRefCount e (increaseRefCount e s1 a) d);
          entry = \<lparr>spellChecker = create e a d, uptime = 0,
                   dispose = (if buffer m then UnmountBuffer a d else UnmountFile a d)\<rparr>
      in log Info (s2\<lparr>spellCheckerTable := js_set (spellCheckerTable s2) key entry\<rparr>))"

subsection \<open>\<^verbatim>\<open>loadDictionary\<close> and \<^verbatim>\<open>unloadDictionary\<close>\<close>

text \<open>Without \<^verbatim>\<open>initialize\<close> the field \<^verbatim>\<open>hunspellFactory\<close> is undefined and the first call
  on it throws a \<^verbatim>\<open>TypeError\<close>. The engine's own failures are not modelled: its calls
  return.\<close>

definition loadDictionary ::
  "env \<Rightarrow> state \<Rightarrow> string \<Rightarrow> source \<Rightarrow> source \<Rightarrow> unit result \<times> state" where
  "loadDictionary e s key dic aff =
     (if key = [] \<or> js_get (spellCheckerTable s) key \<noteq> Undefined
      then (Throw (InvalidKey (if key \<noteq> [] then ''already registered key'' else ''key is empty'')), s)
      else
        (case (dic, aff) of
           (View dicBuffer, View affBuffer) \<Rightarrow>
             if \<not> hunspellFactory s then (Throw TypeError, s)
             else (case mountBufferDictionary e s dicBuffer affBuffer of
                     (m, s1) \<Rightarrow> (Return (), assignSpellchecker e s1 key m))
         | (Path dicFilePath, Path affFilePath) \<Rightarrow>
             if \<not> hunspellFactory s then (Throw TypeError, s)
             else (case mountFileDictionary e s dicFilePath affFilePath of
                     (m, s1) \<Rightarrow> (Return (), assignSpellchecker e s1 key m))
         | (View dicBuffer, Path affFilePath) \<Rightarrow> (Throw CannotLoad, s)
         | (Path dicFilePath, View affBuffer) \<Rightarrow> (Throw CannotLoad, s)))"

text \<open>Lines 181 to 187 of \<^verbatim>\<open>unloadDictionary\<close>.\<close>

definition clearSelection :: "env \<Rightarrow> state \<Rightarrow> string \<Rightarrow> state" where
  "clearSelection e s key =
     (if currentSpellCheckerKey s = Some key \<and> key \<noteq> []
      then setProvider e
             (log Warn (s\<lparr>currentSpellCheckerKey := None, currentSpellCheckerStartTime := None\<rparr>))
             key AlwaysTrue
      else s)"

definition unloadDictionary :: "env \<Rightarrow> state \<Rightarrow> string \<Rightarrow> unit result \<times> state" where
  "unloadDictionary e s key =
     (if key = [] \<or> js_get (spellCheckerTable s) key = Undefined
      then (Return (), log Info s)
      else
        (let s1 = clearSelection e s key
         in case js_get (spellCheckerTable s1) key of
              Own dict \<Rightarrow>
                (let s2 = run_dispose e s1 (dispose dict)
                 in (Return (),
                     log Info (s2\<lparr>spellCheckerTable := js_delete (spellCheckerTable s2) key\<rparr>)))
            | Inherited \<Rightarrow> (Throw TypeError, s1)
            | Undefined \<Rightarrow> (Throw TypeError, s1)))"

subsection \<open>Sequences of calls\<close>

text \<open>A call of the provider's interface, or the host checking a word with the callback it
  holds. \<open>exec\<close> gives the state a call leaves, whether it returns or throws.\<close>

datatype api_call =
    Initialize
  | SetVerboseLog bool
  | LoadDictionary string source source
  | UnloadDictionary string
  | SwitchDictionary string bool int int
  | GetSuggestion string
  | SpellCheck string

definition exec :: "env \<Rightarrow> state \<Rightarrow> api_call \<Rightarrow> state" where
  "exec e s c =
     (case c of
        Initialize \<Rightarrow> initialize s
      | SetVerboseLog v \<Rightarrow> set_verboseLog s v
      | LoadDictionary key dic aff \<Rightarrow> snd (loadDictionary e s key dic aff)
      | UnloadDictionary key \<Rightarrow> snd (unloadDictionary e s key)
      | SwitchDictionary key checkAll now1 now2 \<Rightarrow> snd (switchDictionary e s key checkAll now1 now2)
      | GetSuggestion text \<Rightarrow> snd (getSuggestion s text)
      | SpellCheck text \<Rightarrow>
          (case webFrameProvider s of
             None \<Rightarrow> s
           | Some (language, cb) \<Rightarrow> snd (invoke s cb text)))"

definition run :: "env \<Rightarrow> state \<Rightarrow> api_call list \<Rightarrow> state" where
  "run e s cs = foldl (exec e) s cs"

section \<open>Notions used to state the properties\<close>

subsection \<open>Traces\<close>

text \<open>The calls a step added to the trace; of a list of calls, the keys of the dictionaries
  that were asked for a verdict, the paths the engine was asked to unmount, and the
  directories it was asked to mount.\<close>

definition new_events :: "state \<Rightarrow> state \<Rightarrow> effect list" where
  "new_events s s' = drop (length (trace s)) (trace s')"

fun queried :: "effect list \<Rightarrow> string list" where
  "queried [] = []"
| "queried (Spell k t # es) = k # queried es"
| "queried (x # es) = queried es"

fun unmounted :: "effect list \<Rightarrow> string list" where
  "unmounted [] = []"
| "unmounted (Unmount x # es) = x # unmounted es"
| "unmounted (y # es) = unmounted es"


subsection \<open>The dictionary table\<close>

text \<open>The registered keys are the own keys of the table. \<open>accepts s k w\<close> says that the
  dictionary registered under \<open>k\<close> accepts the word \<open>w\<close>, and \<open>uptime_of s k\<close> is the uptime
  of the entry registered under \<open>k\<close>.\<close>

definition registered :: "state \<Rightarrow> string set" where
  "registered s = fst ` set (spellCheckerTable s)"

definition accepts :: "state \<Rightarrow> string \<Rightarrow> string \<Rightarrow> bool" where
  "accepts s k text =
     (case js_get (spellCheckerTable s) k of
        Own c \<Rightarrow> spell (spellChecker c) text
      | Inherited \<Rightarrow> False
      | Undefined \<Rightarrow> False)"

definition uptime_of :: "state \<Rightarrow> string \<Rightarrow> int" where
  "uptime_of s k =
     (case js_get (spellCheckerTable s) k of
        Own c \<Rightarrow> uptime c
      | Inherited \<Rightarrow> 0
      | Undefined \<Rightarrow> 0)"

subsection \<open>Reference counts\<close>

text \<open>
  \<open>file_refs e f x\<close> is the number of mounted files of a dictionary with disposer \<open>f\<close> that
  lie in the directory \<open>x\<close>, and \<open>refs e t x\<close> adds these numbers over the entries of a table.
  \<open>count_of rc x\<close> reads the ref-count table as a number, absent as zero.

  \<open>matches rc cnt\<close> says that the table holds exactly the positive values of \<open>cnt\<close>, none of
  them under the name of a member of \<^verbatim>\<open>Object.prototype\<close>. A state is \<open>consistent\<close> when the
  keys of its dictionary table are distinct and not empty and its ref-count table matches
  the files of the loaded dictionaries. Every state the provider reaches is consistent
  (\<open>consistent_reachable\<close> below), given \<open>mounts_ok\<close>: no mounted path lies in a directory
  named like a member of \<^verbatim>\<open>Object.prototype\<close>. The engine mounts under absolute paths, and
  the directory of an absolute path starts with a slash.
\<close>

definition file_refs :: "env \<Rightarrow> disposer \<Rightarrow> string \<Rightarrow> nat" where
  "file_refs e f x =
     (case f of
        UnmountFile a d \<Rightarrow>
          (if dirname e a = x then 1 else 0) + (if dirname e d = x then 1 else 0)
      | UnmountBuffer a d \<Rightarrow> 0)"

definition refs :: "env \<Rightarrow> SpellChecker js_object \<Rightarrow> string \<Rightarrow> nat" where
  "refs e t x = sum_list (map (\<lambda>(k, c). file_refs e (dispose c) x) t)"

definition count_of :: "refcount js_object \<Rightarrow> string \<Rightarrow> int" where
  "count_of rc x =
     (case js_get rc x of
        Own (Num n) \<Rightarrow> n
      | Own Str \<Rightarrow> 0
      | Own Obj \<Rightarrow> 0
      | Inherited \<Rightarrow> 0
      | Undefined \<Rightarrow> 0)"

definition mounts_ok :: "env \<Rightarrow> bool" where
  "mounts_ok e = (\<forall>f. dirname e (getMountedPath e f) \<notin> set object_prototype_keys)"

definition matches :: "refcount js_object \<Rightarrow> (string \<Rightarrow> nat) \<Rightarrow> bool" where
  "matches rc cnt =
     (\<forall>x. map_of rc x = (if cnt x = 0 then None else Some (Num (int (cnt x))))
          \<and> (x \<in> set object_prototype_keys \<longrightarrow> cnt x = 0))"

definition consistent :: "env \<Rightarrow> state \<Rightarrow> bool" where
  "consistent e s =
     (distinct (map fst (spellCheckerTable s))
      \<and> [] \<notin> fst ` set (spellCheckerTable s)
      \<and> matches (fileMountRefCount s) (refs e (spellCheckerTable s)))"

subsection \<open>Sequences of calls\<close>

text \<open>\<open>clocks_ok e s cs\<close>: along the calls \<open>cs\<close> from \<open>s\<close>, no \<open>switchDictionary\<close> reads a clock
  value that lies before the start timestamp it finds. \<open>keeps_callback key call\<close>: the call
  neither switches the dictionary nor unloads \<open>key\<close>. \<open>attached key checkAll s\<close>: the host
  holds the callback that \<open>attach\<close> built for \<open>key\<close>, and \<open>key\<close> is selected and registered.\<close>

fun clocks_ok :: "env \<Rightarrow> state \<Rightarrow> api_call list \<Rightarrow> bool" where
  "clocks_ok e s [] = True"
| "clocks_ok e s (SwitchDictionary key checkAll now1 now2 # cs) =
     ((case currentSpellCheckerStartTime s of None \<Rightarrow> True | Some t0 \<Rightarrow> t0 \<le> now1)
      \<and> clocks_ok e (exec e s (SwitchDictionary key checkAll now1 now2)) cs)"
| "clocks_ok e s (c # cs) = clocks_ok e (exec e s c) cs"

definition keeps_callback :: "string \<Rightarrow> api_call \<Rightarrow> bool" where
  "keeps_callback key call =
     (case call of
        Initialize \<Rightarrow> True
      | SetVerboseLog v \<Rightarrow> True
      | LoadDictionary k dic aff \<Rightarrow> True
      | UnloadDictionary k \<Rightarrow> k \<noteq> key
      | SwitchDictionary k checkAll now1 now2 \<Rightarrow> False
      | GetSuggestion text \<Rightarrow> True
      | SpellCheck text \<Rightarrow> True)"

definition attached :: "string \<Rightarrow> bool \<Rightarrow> state \<Rightarrow> bool" where
  "attached key checkAll s =
     (webFrameProvider s = Some (key, Provider key checkAll)
      \<and> currentSpellCheckerKey s = Some key
      \<and> key \<in> registered s)"

section \<open>A concrete environment\<close>

text \<open>
  Paths are POSIX paths without trailing or doubled slashes, for which \<open>example_dirname\<close>
  and \<open>example_basename\<close> agree with Node's \<^verbatim>\<open>path.dirname\<close> and \<^verbatim>\<open>path.basename\<close>. The
  engine mounts a directory \<open>d\<close> at \<open>/vfs\<close> followed by \<open>d\<close>, and a dictionary accepts the words
  of a fixed list. Two dictionaries are loaded from the one directory \<open>/dict\<close>.
\<close>

definition example_dirname :: "string \<Rightarrow> string" where
  "example_dirname p =
     (let d = rev (drop 1 (dropWhile (\<lambda>c. c \<noteq> CHR ''/'') (rev p)))
      in if CHR ''/'' \<notin> set p then ''.'' else if d = [] then ''/'' else d)"

definition example_basename :: "string \<Rightarrow> string" where
  "example_basename p = rev (takeWhile (\<lambda>c. c \<noteq> CHR ''/'') (rev p))"

definition example_words :: "string \<Rightarrow> string list" where
  "example_words dic =
     (if dic = ''/vfs/dict/en-US.dic'' then [''color'', ''cat'']
      else if dic = ''/vfs/dict/en-GB.dic'' then [''colour'', ''cat'']
      else [])"

definition example_env :: env where
  "example_env =
     \<lparr>renderer = True,
      dirname = example_dirname,
      basename = example_basename,
      join = (\<lambda>a b. a @ ''/'' @ b),
      unixify = (\<lambda>p. p),
      mountDirectory = (\<lambda>d. ''/vfs'' @ d),
      mountBuffer = (\<lambda>tr b. ''/mem/'' @ replicate (length tr) CHR ''b''),
      create = (\<lambda>a d. \<lparr>spell = (\<lambda>w. w \<in> set (example_words d)),
                          suggest = (\<lambda>w. filter (\<lambda>v. take 1 v = take 1 w) (example_words d))\<rparr>)\<rparr>"

definition example_us :: SpellChecker where
  "example_us =
     \<lparr>spellChecker = create example_env ''/vfs/dict/en-US.aff'' ''/vfs/dict/en-US.dic'',
      uptime = 0,
      dispose = UnmountFile ''/vfs/dict/en-US.aff'' ''/vfs/dict/en-US.dic''\<rparr>"

definition example_gb :: SpellChecker where
  "example_gb =
     \<lparr>spellChecker = create example_env ''/vfs/dict/en-GB.aff'' ''/vfs/dict/en-GB.dic'',
      uptime = 0,
      dispose = UnmountFile ''/vfs/dict/en-GB.aff'' ''/vfs/dict/en-GB.dic''\<rparr>"

text \<open>The states of the examples: both dictionaries loaded; one of them unloaded again;
  \<open>en-gb\<close> selected at the clock reading 100 and \<open>en-us\<close> at the readings 350 and 400; the
  provider just initialized; \<open>en-us\<close> loaded alone and attached with \<open>checkAllDictionaries\<close>,
  then \<open>en-gb\<close> loaded, then unloaded again; \<open>constructor\<close> passed to
  \<open>switchDictionary\<close> with both dictionaries loaded, without and with
  \<open>checkAllDictionaries\<close>; and \<open>constructor\<close> passed to it with \<open>en-us\<close> loaded alone, and
  \<open>en-gb\<close> loaded after that.\<close>

definition example_calls :: "api_call list" where
  "example_calls =
     [Initialize,
      LoadDictionary ''en-us'' (Path ''/dict/en-US.dic'') (Path ''/dict/en-US.aff''),
      LoadDictionary ''en-gb'' (Path ''/dict/en-GB.dic'') (Path ''/dict/en-GB.aff'')]"

definition example_loaded :: state where
  "example_loaded = run example_env initial example_calls"

definition example_unloaded :: state where
  "example_unloaded = run example_env initial (example_calls @ [UnloadDictionary ''en-us''])"

definition example_selected :: state where
  "example_selected = run example_env example_loaded [SwitchDictionary ''en-gb'' False 0 100]"

definition example_switched :: state where
  "example_switched = exec example_env example_selected (SwitchDictionary ''en-us'' False 350 400)"


definition example_start :: state where
  "example_start =
     run example_env initial
       [Initialize,
        LoadDictionary ''en-us'' (Path ''/dict/en-US.dic'') (Path ''/dict/en-US.aff'')]"

definition example_attached :: state where
  "example_attached = snd (switchDictionary example_env example_start ''en-us'' True 0 0)"

definition example_later :: state where
  "example_later =
     run example_env example_attached
       [LoadDictionary ''en-gb'' (Path ''/dict/en-GB.dic'') (Path ''/dict/en-GB.aff'')]"

definition example_latest :: state where
  "example_latest =
     run example_env example_attached
       [LoadDictionary ''en-gb'' (Path ''/dict/en-GB.dic'') (Path ''/dict/en-GB.aff''),
        UnloadDictionary ''en-gb'']"

definition example_misselected :: state where
  "example_misselected =
     snd (switchDictionary example_env example_loaded ''constructor'' False 5 5)"

definition example_inherited :: state where
  "example_inherited =
     snd (switchDictionary example_env example_loaded ''constructor'' True 5 5)"

definition example_inherited_start :: state where
  "example_inherited_start =
     snd (switchDictionary example_env example_start ''constructor'' True 5 5)"

definition example_inherited_later :: state where
  "example_inherited_later =
     run example_env example_inherited_start
       [LoadDictionary ''en-gb'' (Path ''/dict/en-GB.dic'') (Path ''/dict/en-GB.aff'')]"
section \<open>Basic facts\<close>

subsection \<open>Rounding to a double\<close>

lemma ulp_exp_small: "n < significand_limit \<Longrightarrow> ulp_exp n = 0"
  by (simp add: ulp_exp.simps)

lemma ulp_exp_large: "\<not> n < significand_limit \<Longrightarrow> ulp_exp n = Suc (ulp_exp (n div 2))"
  by (subst ulp_exp.simps) simp

lemma round_nat_small: "n < significand_limit \<Longrightarrow> round_nat n = n"
  by (simp add: round_nat_def ulp_exp_small)

lemma ulp_exp_mono: "m \<le> n \<Longrightarrow> ulp_exp m \<le> ulp_exp n"
proof (induction n arbitrary: m rule: ulp_exp.induct)
  case (1 n)
  show ?case
  proof (cases "m < significand_limit")
    case True
    then show ?thesis by (simp add: ulp_exp_small)
  next
    case False
    with 1(2) have n: "\<not> n < significand_limit" by simp
    have "m div 2 \<le> n div 2" using 1(2) by (rule div_le_mono)
    from 1(1)[OF n this] show ?thesis by (simp add: ulp_exp_large False n)
  qed
qed

lemma div_ulp_less: "n div 2 ^ ulp_exp n < significand_limit"
proof (induction n rule: ulp_exp.induct)
  case (1 n)
  show ?case
  proof (cases "n < significand_limit")
    case True
    then show ?thesis by (simp add: ulp_exp_small)
  next
    case False
    have "n div 2 ^ Suc (ulp_exp (n div 2)) = n div 2 div 2 ^ ulp_exp (n div 2)"
      by (simp add: div_mult2_eq)
    with 1[OF False] show ?thesis by (simp add: ulp_exp_large False)
  qed
qed

lemma ulp_exp_lower: "0 < ulp_exp n \<Longrightarrow> significand_limit * 2 ^ ulp_exp n \<le> 2 * n"
proof (induction n rule: ulp_exp.induct)
  case (1 n)
  show ?case
  proof (cases "n < significand_limit")
    case True
    with 1(2) show ?thesis by (simp add: ulp_exp_small)
  next
    case False
    show ?thesis
    proof (cases "ulp_exp (n div 2) = 0")
      case True
      with False show ?thesis by (simp add: ulp_exp_large)
    next
      case z: False
      then have "significand_limit * 2 ^ ulp_exp (n div 2) \<le> 2 * (n div 2)"
        using 1(1)[OF False] by simp
      also have "\<dots> \<le> n" by simp
      finally show ?thesis by (simp add: ulp_exp_large False)
    qed
  qed
qed

lemma ulp_exp_upper: "n < significand_limit * 2 ^ j \<Longrightarrow> ulp_exp n \<le> j"
proof (induction n arbitrary: j rule: ulp_exp.induct)
  case (1 n)
  show ?case
  proof (cases "n < significand_limit")
    case True
    then show ?thesis by (simp add: ulp_exp_small)
  next
    case False
    with 1(2) obtain i where j: "j = Suc i" by (cases j) auto
    with 1(2) have "n div 2 < significand_limit * 2 ^ i" by (simp add: less_mult_imp_div_less mult.commute mult.left_commute)
    from 1(1)[OF False this] show ?thesis by (simp add: ulp_exp_large False j)
  qed
qed

lemma round_nat_floor: "n div 2 ^ ulp_exp n * 2 ^ ulp_exp n \<le> round_nat n"
  by (simp add: round_nat_def Let_def)

lemma round_nat_ceil: "round_nat n \<le> (n div 2 ^ ulp_exp n + 1) * 2 ^ ulp_exp n"
  by (simp add: round_nat_def Let_def)

lemma round_nat_exact: "n mod 2 ^ ulp_exp n = 0 \<Longrightarrow> round_nat n = n"
  using div_mult_mod_eq[of n "2 ^ ulp_exp n"] by (simp add: round_nat_def Let_def)

lemma round_nat_upper: "round_nat n \<le> significand_limit * 2 ^ ulp_exp n"
proof -
  have "n div 2 ^ ulp_exp n + 1 \<le> significand_limit" using div_ulp_less[of n] by simp
  then have "(n div 2 ^ ulp_exp n + 1) * 2 ^ ulp_exp n \<le> significand_limit * 2 ^ ulp_exp n"
    by (rule mult_le_mono1)
  with round_nat_ceil[of n] show ?thesis by (rule le_trans)
qed

lemma round_nat_lower:
  assumes "0 < ulp_exp n"
  shows "significand_limit * 2 ^ ulp_exp n \<le> 2 * round_nat n"
proof -
  let ?u = "2 ^ ulp_exp n :: nat"
  have l: "significand_limit = 2 * 2 ^ 52" by (simp add: significand_limit_def)
  have "2 * (2 ^ 52 * ?u) \<le> 2 * n" using ulp_exp_lower[OF assms] by (simp add: l)
  then have "2 ^ 52 * ?u \<le> n" by simp
  then have "2 ^ 52 \<le> n div ?u" by (simp add: less_eq_div_iff_mult_less_eq)
  then have "2 ^ 52 * ?u \<le> n div ?u * ?u" by (rule mult_le_mono1)
  also have "\<dots> \<le> round_nat n" by (rule round_nat_floor)
  finally show ?thesis by (simp add: l)
qed

lemma round_nat_mono:
  assumes mn: "m \<le> n"
  shows "round_nat m \<le> round_nat n"
proof (cases "ulp_exp m = ulp_exp n")
  case True
  let ?u = "2 ^ ulp_exp n :: nat"
  have q: "m div ?u \<le> n div ?u" using mn by (rule div_le_mono)
  show ?thesis
  proof (cases "m div ?u = n div ?u")
    case eq: True
    have "m div ?u * ?u + m mod ?u \<le> n div ?u * ?u + n mod ?u"
      using mn by (simp only: div_mult_mod_eq)
    then have r: "m mod ?u \<le> n mod ?u" by (simp add: eq)
    show ?thesis using r by (auto simp: round_nat_def Let_def True eq)
  next
    case False
    with q have "m div ?u + 1 \<le> n div ?u" by simp
    then have "(m div ?u + 1) * ?u \<le> n div ?u * ?u" by (rule mult_le_mono1)
    with round_nat_ceil[of m] round_nat_floor[of n] show ?thesis by (simp add: True)
  qed
next
  case False
  with ulp_exp_mono[OF mn] have lt: "ulp_exp m < ulp_exp n" by simp
  then have "Suc (ulp_exp m) \<le> ulp_exp n" by simp
  then have "(2::nat) ^ Suc (ulp_exp m) \<le> 2 ^ ulp_exp n" by (rule power_increasing) simp
  then have "significand_limit * 2 ^ Suc (ulp_exp m) \<le> significand_limit * 2 ^ ulp_exp n"
    by (rule mult_le_mono2)
  also have "\<dots> \<le> 2 * round_nat n" using lt by (intro round_nat_lower) simp
  finally have "2 * (significand_limit * 2 ^ ulp_exp m) \<le> 2 * round_nat n" by simp
  then have "significand_limit * 2 ^ ulp_exp m \<le> round_nat n" by simp
  with round_nat_upper[of m] show ?thesis by (rule le_trans)
qed

lemma round_nat_representable:
  assumes k: "k \<le> significand_limit"
  shows "round_nat (k * 2 ^ e) = k * 2 ^ e"
proof (rule round_nat_exact)
  let ?N = "k * 2 ^ e"
  show "?N mod 2 ^ ulp_exp ?N = 0"
  proof (cases "k < significand_limit")
    case True
    then have "?N < significand_limit * 2 ^ e" by simp
    then have "ulp_exp ?N \<le> e" by (rule ulp_exp_upper)
    then have "(2::nat) ^ ulp_exp ?N dvd 2 ^ e" by (rule le_imp_power_dvd)
    then have "2 ^ ulp_exp ?N dvd ?N" by (rule dvd_mult)
    then show ?thesis by simp
  next
    case False
    with k have k: "k = 2 * 2 ^ 52" by (simp add: significand_limit_def)
    have "?N < significand_limit * 2 ^ Suc e" by (simp add: k significand_limit_def)
    then have "ulp_exp ?N \<le> Suc e" by (rule ulp_exp_upper)
    then have "(2::nat) ^ ulp_exp ?N dvd 2 ^ Suc e" by (rule le_imp_power_dvd)
    moreover have "?N = 2 ^ 52 * 2 ^ Suc e" by (simp add: k)
    ultimately have "2 ^ ulp_exp ?N dvd ?N" by (metis dvd_mult)
    then show ?thesis by simp
  qed
qed

lemma round_nat_idem: "round_nat (round_nat n) = round_nat n"
proof -
  have k: "n div 2 ^ ulp_exp n < significand_limit" by (rule div_ulp_less)
  have "round_nat n = n div 2 ^ ulp_exp n * 2 ^ ulp_exp n
      \<or> round_nat n = (n div 2 ^ ulp_exp n + 1) * 2 ^ ulp_exp n"
    by (simp add: round_nat_def Let_def)
  then show ?thesis
  proof
    assume a: "round_nat n = n div 2 ^ ulp_exp n * 2 ^ ulp_exp n"
    show ?thesis unfolding a using k by (intro round_nat_representable) simp
  next
    assume a: "round_nat n = (n div 2 ^ ulp_exp n + 1) * 2 ^ ulp_exp n"
    show ?thesis unfolding a using k by (intro round_nat_representable) simp
  qed
qed

lemma to_double_exact: "\<bar>x\<bar> < 2 ^ 53 \<Longrightarrow> to_double x = x"
proof -
  assume a: "\<bar>x\<bar> < 2 ^ 53"
  then have "nat \<bar>x\<bar> < significand_limit" by (simp add: significand_limit_def)
  then have "round_nat (nat \<bar>x\<bar>) = nat \<bar>x\<bar>" by (rule round_nat_small)
  then show ?thesis by (cases "x < 0") (simp_all add: to_double_def abs_if)
qed

lemma to_double_mono: "x \<le> y \<Longrightarrow> to_double x \<le> to_double y"
proof -
  assume xy: "x \<le> y"
  consider "y < 0" | "x < 0" "0 \<le> y" | "0 \<le> x" by linarith
  then show ?thesis
  proof cases
    case 1
    with xy have "nat (- y) \<le> nat (- x)" by simp
    then have "round_nat (nat (- y)) \<le> round_nat (nat (- x))" by (rule round_nat_mono)
    with 1 xy show ?thesis by (simp add: to_double_def)
  next
    case 2
    then show ?thesis by (simp add: to_double_def)
  next
    case 3
    with xy have "nat x \<le> nat y" by simp
    then have "round_nat (nat x) \<le> round_nat (nat y)" by (rule round_nat_mono)
    with 3 xy show ?thesis by (simp add: to_double_def)
  qed
qed

lemma round_nat_0: "round_nat 0 = 0"
  by (simp add: round_nat_def)

lemma round_nat_pos: "0 < n \<Longrightarrow> 0 < round_nat n"
proof -
  assume "0 < n"
  then have "1 \<le> n" by simp
  then have "round_nat 1 \<le> round_nat n" by (rule round_nat_mono)
  moreover have "round_nat 1 = 1" by (rule round_nat_small) (simp add: significand_limit_def)
  ultimately show ?thesis by simp
qed

lemma to_double_idem: "to_double (to_double x) = to_double x"
proof (cases "x < 0")
  case True
  then have "0 < nat (- x)" by simp
  then have "0 < round_nat (nat (- x))" by (rule round_nat_pos)
  then show ?thesis using True by (simp add: to_double_def round_nat_idem)
next
  case False
  then show ?thesis by (simp add: to_double_def round_nat_idem)
qed

lemma to_double_nonneg: "0 \<le> x \<Longrightarrow> 0 \<le> to_double x"
  by (simp add: to_double_def)

lemma to_double_add_nonneg:
  assumes u: "to_double u = u" and d: "0 \<le> d"
  shows "u \<le> to_double (u + to_double d)"
proof -
  have "u \<le> u + to_double d" using to_double_nonneg[OF d] by simp
  then have "to_double u \<le> to_double (u + to_double d)" by (rule to_double_mono)
  then show ?thesis by (simp add: u)
qed

subsection \<open>Logging leaves the fields alone\<close>

lemma fields_emit [simp]:
  "hunspellFactory (emit x s) = hunspellFactory s"
  "spellCheckerTable (emit x s) = spellCheckerTable s"
  "currentSpellCheckerKey (emit x s) = currentSpellCheckerKey s"
  "verboseLog (emit x s) = verboseLog s"
  "fileMountRefCount (emit x s) = fileMountRefCount s"
  "currentSpellCheckerStartTime (emit x s) = currentSpellCheckerStartTime s"
  "webFrameProvider (emit x s) = webFrameProvider s"
  "trace (emit x s) = trace s @ [x]"
  by (simp_all add: emit_def)

lemma fields_log [simp]:
  "hunspellFactory (log l s) = hunspellFactory s"
  "spellCheckerTable (log l s) = spellCheckerTable s"
  "currentSpellCheckerKey (log l s) = currentSpellCheckerKey s"
  "verboseLog (log l s) = verboseLog s"
  "fileMountRefCount (log l s) = fileMountRefCount s"
  "currentSpellCheckerStartTime (log l s) = currentSpellCheckerStartTime s"
  "webFrameProvider (log l s) = webFrameProvider s"
  "trace (log l s) = trace s @ [Log l]"
  by (simp_all add: log_def)

lemma fields_log_verbose [simp]:
  "hunspellFactory (log_verbose l s) = hunspellFactory s"
  "spellCheckerTable (log_verbose l s) = spellCheckerTable s"
  "currentSpellCheckerKey (log_verbose l s) = currentSpellCheckerKey s"
  "verboseLog (log_verbose l s) = verboseLog s"
  "fileMountRefCount (log_verbose l s) = fileMountRefCount s"
  "currentSpellCheckerStartTime (log_verbose l s) = currentSpellCheckerStartTime s"
  "webFrameProvider (log_verbose l s) = webFrameProvider s"
  "trace (log_verbose l s) = trace s @ (if verboseLog s then [Log l] else [])"
  by (simp_all add: log_verbose_def)

subsection \<open>Lookups, keys and entries of an object\<close>

lemma js_get_set: "js_get (js_set obj k v) k' = (if k' = k then Own v else js_get obj k')"
  by (simp add: js_get_def js_set_def update_conv')

lemma js_get_delete:
  "js_get (js_delete obj k) k' =
     (if k' = k then (if k \<in> set object_prototype_keys then Inherited else Undefined)
      else js_get obj k')"
  by (simp add: js_get_def js_delete_def delete_conv')

lemma set_object_entries: "set (object_entries obj) = set obj"
  by (auto simp: object_entries_def)

lemma set_object_keys: "set (object_keys obj) = fst ` set obj"
  by (simp add: object_keys_def set_object_entries)

lemma js_get_object_keys:
  "k \<in> set (object_keys obj) \<Longrightarrow> \<exists>v. js_get obj k = Own v"
  by (auto simp: set_object_keys js_get_def split: option.splits dest: weak_map_of_SomeI)

lemma js_get_Own_keys: "js_get obj k = Own v \<Longrightarrow> k \<in> set (object_keys obj)"
  by (auto simp: set_object_keys js_get_def split: option.splits if_splits dest: map_of_SomeD intro: rev_image_eqI)

subsection \<open>The loop of the attached callback\<close>

lemma queried_append: "queried (xs @ ys) = queried xs @ queried ys"
  by (induction xs rule: queried.induct) auto

lemma new_events_append: "trace s' = trace s @ es \<Longrightarrow> new_events s s' = es"
  by (simp add: new_events_def)

lemma checkOthers_spec:
  assumes "\<forall>k\<in>set ks. \<exists>c. js_get (spellCheckerTable s) k = Own c"
  shows "\<exists>s' es. checkOthers s text ks = (Return (\<exists>k\<in>set ks. accepts s k text), s')
           \<and> trace s' = trace s @ es
           \<and> queried es = takeWhile (\<lambda>k. \<not> accepts s k text) ks
                           @ take 1 (dropWhile (\<lambda>k. \<not> accepts s k text) ks)"
  using assms
proof (induction ks arbitrary: s)
  case Nil
  then show ?case by simp
next
  case (Cons k ks)
  from Cons.prems obtain c where c: "js_get (spellCheckerTable s) k = Own c" by auto
  let ?s1 = "log_verbose Debug (emit (Spell k text) s)"
  have acc: "\<And>k'. accepts ?s1 k' text = accepts s k' text" by (simp add: accepts_def)
  show ?case
  proof (cases "spell (spellChecker c) text")
    case True
    then have "accepts s k text" using c by (simp add: accepts_def)
    with True c show ?thesis by (simp add: queried_append)
  next
    case False
    then have nacc: "\<not> accepts s k text" using c by (simp add: accepts_def)
    have "\<forall>k'\<in>set ks. \<exists>c. js_get (spellCheckerTable ?s1) k' = Own c"
      using Cons.prems by simp
    from Cons.IH[OF this] obtain s' es where
      r: "checkOthers ?s1 text ks = (Return (\<exists>k\<in>set ks. accepts ?s1 k text), s')"
      and t: "trace s' = trace ?s1 @ es"
      and q: "queried es = takeWhile (\<lambda>k. \<not> accepts ?s1 k text) ks
                           @ take 1 (dropWhile (\<lambda>k. \<not> accepts ?s1 k text) ks)"
      by blast
    have "checkOthers s text (k # ks) = (Return (\<exists>k\<in>set (k # ks). accepts s k text), s')"
      using c False nacc r by (simp add: acc)
    moreover have "trace s' = trace s @ ((Spell k text # (if verboseLog s then [Log Debug] else [])) @ es)"
      using t by simp
    moreover have "queried ((Spell k text # (if verboseLog s then [Log Debug] else [])) @ es)
        = takeWhile (\<lambda>k. \<not> accepts s k text) (k # ks)
                           @ take 1 (dropWhile (\<lambda>k. \<not> accepts s k text) (k # ks))"
      using q nacc by (simp add: queried_append acc)
    ultimately show ?thesis by blast
  qed
qed

subsection \<open>Lookups that are undefined\<close>

lemma switchDictionary_not_available:
  assumes "key = [] \<or> js_get (spellCheckerTable s) key = Undefined"
  shows "switchDictionary e s key checkAll now1 now2 = (Throw (NotAvailable key), s)"
  using assms by (auto simp: switchDictionary_def)

lemma js_get_Undefined_iff:
  "js_get obj k = Undefined \<longleftrightarrow> k \<notin> fst ` set obj \<and> k \<notin> set object_prototype_keys"
  by (cases "map_of obj k") (auto simp: js_get_def map_of_eq_None_iff[symmetric])

subsection \<open>The list of available dictionaries\<close>

lemma registered_iff: "k \<in> registered s \<longleftrightarrow> (\<exists>c. js_get (spellCheckerTable s) k = Own c)"
proof
  assume "k \<in> registered s"
  then have "map_of (spellCheckerTable s) k \<noteq> None"
    by (simp add: registered_def map_of_eq_None_iff)
  then show "\<exists>c. js_get (spellCheckerTable s) k = Own c"
    by (auto simp: js_get_def)
next
  assume "\<exists>c. js_get (spellCheckerTable s) k = Own c"
  then obtain c where "map_of (spellCheckerTable s) k = Some c"
    by (auto simp: js_get_def split: option.splits if_splits)
  then have "(k, c) \<in> set (spellCheckerTable s)" by (rule map_of_SomeD)
  then show "k \<in> registered s" by (force simp: registered_def)
qed

lemma mset_object_entries: "mset (object_entries obj) = mset obj"
  by (simp add: object_entries_def)

lemma mset_object_keys: "mset (object_keys obj) = mset (map fst obj)"
  by (simp add: object_keys_def mset_object_entries)

lemma distinct_object_keys:
  "distinct (map fst obj) \<Longrightarrow> distinct (object_keys obj)"
  using mset_object_keys[of obj] by (metis mset_eq_imp_distinct_iff)

lemma availableDictionaries_keys:
  "mset (availableDictionaries s) = mset (object_keys (spellCheckerTable s))"
  by (simp add: availableDictionaries_def orderBy_desc_def object_keys_def Let_def
      image_mset.compositionality comp_def case_prod_unfold)

lemma count_list_distinct: "distinct xs \<Longrightarrow> x \<in> set xs \<Longrightarrow> count_list xs x = 1"
  by (induction xs) auto

lemma availableDictionaries_sorted:
  assumes d: "distinct (map fst (spellCheckerTable s))"
  shows "sorted_wrt (\<lambda>a b. uptime_of s b \<le> uptime_of s a) (availableDictionaries s)"
proof -
  let ?xs = "map (\<lambda>(key, c). (key, uptime c)) (object_entries (spellCheckerTable s))"
  let ?ys = "sort_key (\<lambda>v. - snd v) ?xs"
  have u: "snd v = uptime_of s (fst v)" if "v \<in> set ?ys" for v
  proof -
    from that obtain k c where kc: "(k, c) \<in> set (spellCheckerTable s)" and v: "v = (k, uptime c)"
      by (auto simp: set_object_entries)
    from d kc have "map_of (spellCheckerTable s) k = Some c" by simp
    then show ?thesis by (simp add: v uptime_of_def js_get_def)
  qed
  have "sorted (map (\<lambda>v. - snd v) ?ys)" by (rule sorted_sort_key)
  moreover have "map (\<lambda>v. - snd v) ?ys = map (\<lambda>k. - uptime_of s k) (map fst ?ys)"
    using u by simp
  ultimately have "sorted (map (\<lambda>k. - uptime_of s k) (map fst ?ys))" by simp
  then have "sorted_wrt (\<lambda>a b. - uptime_of s a \<le> - uptime_of s b) (map fst ?ys)"
    by (simp add: sorted_map sorted_wrt_map)
  then show ?thesis
    by (simp add: availableDictionaries_def orderBy_desc_def Let_def sorted_wrt_map)
qed

subsection \<open>What mounting and disposing leave alone\<close>

lemma fields_increaseRefCount [simp]:
  "hunspellFactory (increaseRefCount e s p) = hunspellFactory s"
  "spellCheckerTable (increaseRefCount e s p) = spellCheckerTable s"
  "currentSpellCheckerKey (increaseRefCount e s p) = currentSpellCheckerKey s"
  "verboseLog (increaseRefCount e s p) = verboseLog s"
  "currentSpellCheckerStartTime (increaseRefCount e s p) = currentSpellCheckerStartTime s"
  "webFrameProvider (increaseRefCount e s p) = webFrameProvider s"
  "trace (increaseRefCount e s p) = trace s @ [Log Debug]"
  by (simp_all add: increaseRefCount_def Let_def split: property.splits refcount.splits)

lemma fields_decreaseRefCount [simp]:
  "hunspellFactory (snd (decreaseRefCount e s p)) = hunspellFactory s"
  "spellCheckerTable (snd (decreaseRefCount e s p)) = spellCheckerTable s"
  "currentSpellCheckerKey (snd (decreaseRefCount e s p)) = currentSpellCheckerKey s"
  "verboseLog (snd (decreaseRefCount e s p)) = verboseLog s"
  "currentSpellCheckerStartTime (snd (decreaseRefCount e s p)) = currentSpellCheckerStartTime s"
  "webFrameProvider (snd (decreaseRefCount e s p)) = webFrameProvider s"
  "trace (snd (decreaseRefCount e s p)) = trace s @ [Log Debug]"
  by (simp_all add: decreaseRefCount_def Let_def)

lemma fields_unmountPath [simp]:
  "hunspellFactory (unmountPath e s p) = hunspellFactory s"
  "spellCheckerTable (unmountPath e s p) = spellCheckerTable s"
  "currentSpellCheckerKey (unmountPath e s p) = currentSpellCheckerKey s"
  "verboseLog (unmountPath e s p) = verboseLog s"
  "currentSpellCheckerStartTime (unmountPath e s p) = currentSpellCheckerStartTime s"
  "webFrameProvider (unmountPath e s p) = webFrameProvider s"
  by (simp_all add: unmountPath_def split: prod.splits)
     (metis fields_decreaseRefCount snd_conv)+

lemma fields_run_dispose [simp]:
  "hunspellFactory (run_dispose e s f) = hunspellFactory s"
  "spellCheckerTable (run_dispose e s f) = spellCheckerTable s"
  "currentSpellCheckerKey (run_dispose e s f) = currentSpellCheckerKey s"
  "verboseLog (run_dispose e s f) = verboseLog s"
  "currentSpellCheckerStartTime (run_dispose e s f) = currentSpellCheckerStartTime s"
  "webFrameProvider (run_dispose e s f) = webFrameProvider s"
  by (simp_all add: run_dispose_def unmountFile_def unmountBuffer_def split: disposer.splits)

lemma fields_setProvider [simp]:
  "hunspellFactory (setProvider e s k cb) = hunspellFactory s"
  "spellCheckerTable (setProvider e s k cb) = spellCheckerTable s"
  "currentSpellCheckerKey (setProvider e s k cb) = currentSpellCheckerKey s"
  "verboseLog (setProvider e s k cb) = verboseLog s"
  "fileMountRefCount (setProvider e s k cb) = fileMountRefCount s"
  "currentSpellCheckerStartTime (setProvider e s k cb) = currentSpellCheckerStartTime s"
  "webFrameProvider (setProvider e s k cb) = (if renderer e then Some (k, cb) else webFrameProvider s)"
  "trace (setProvider e s k cb) =
     trace s @ [if renderer e then SetSpellCheckProvider k cb else Log Warn]"
  by (simp_all add: setProvider_def)

lemma fields_assignSpellchecker [simp]:
  "hunspellFactory (assignSpellchecker e s key m) = hunspellFactory s"
  "currentSpellCheckerKey (assignSpellchecker e s key m) = currentSpellCheckerKey s"
  "verboseLog (assignSpellchecker e s key m) = verboseLog s"
  "currentSpellCheckerStartTime (assignSpellchecker e s key m) = currentSpellCheckerStartTime s"
  "webFrameProvider (assignSpellchecker e s key m) = webFrameProvider s"
  by (simp_all add: assignSpellchecker_def Let_def)

lemma table_assignSpellchecker:
  "spellCheckerTable (assignSpellchecker e s key m) =
     js_set (spellCheckerTable s) key
       \<lparr>spellChecker = create e (affPath m) (dicPath m), uptime = 0,
        dispose = (if buffer m then UnmountBuffer (affPath m) (dicPath m)
                   else UnmountFile (affPath m) (dicPath m))\<rparr>"
  by (simp add: assignSpellchecker_def Let_def)

lemma mountFileDictionary_eq:
  "mountFileDictionary e s dic aff =
     (\<lparr>affPath = getMountedPath e aff, dicPath = getMountedPath e dic, buffer = False\<rparr>,
      emit (MountDirectory (dirname e dic)) (emit (MountDirectory (dirname e aff)) s))"
  by (simp add: mountFileDictionary_def Let_def)

lemma mountBufferDictionary_eq:
  "mountBufferDictionary e s dic aff =
     (\<lparr>affPath = mountBuffer e (trace s) aff,
       dicPath = mountBuffer e (trace s @ [MountBuffer aff]) dic, buffer = True\<rparr>,
      emit (MountBuffer dic) (emit (MountBuffer aff) s))"
  by (simp add: mountBufferDictionary_def Let_def)

subsection \<open>A load that returns\<close>

lemma loadDictionary_Return:
  assumes "loadDictionary e s key dic aff = (Return (), s')"
  shows "key \<noteq> [] \<and> js_get (spellCheckerTable s) key = Undefined \<and> hunspellFactory s
       \<and> ((\<exists>d a. dic = Path d \<and> aff = Path a
              \<and> s' = assignSpellchecker e
                         (emit (MountDirectory (dirname e d)) (emit (MountDirectory (dirname e a)) s))
                         key
                         \<lparr>affPath = getMountedPath e a, dicPath = getMountedPath e d,
                          buffer = False\<rparr>)
          \<or> (\<exists>d a. dic = View d \<and> aff = View a
              \<and> s' = assignSpellchecker e
                         (emit (MountBuffer d) (emit (MountBuffer a) s))
                         key
                         \<lparr>affPath = mountBuffer e (trace s) a,
                          dicPath = mountBuffer e (trace s @ [MountBuffer a]) d,
                          buffer = True\<rparr>))"
  using assms
  by (cases dic; cases aff)
     (auto simp: loadDictionary_def mountFileDictionary_eq mountBufferDictionary_eq
           split: if_splits)

lemma update_fresh: "k \<notin> fst ` set al \<Longrightarrow> AList.update k v al = al @ [(k, v)]"
  by (induction al) auto

lemma loadDictionary_Return_table:
  assumes "loadDictionary e s key dic aff = (Return (), s')"
  shows "\<exists>m s1. s' = assignSpellchecker e s1 key m \<and> spellCheckerTable s1 = spellCheckerTable s"
  using loadDictionary_Return[OF assms]
  by (elim conjE disjE exE) (rule exI, rule exI, rule conjI, assumption, simp)+

lemma loadDictionary_frame:
  "currentSpellCheckerKey (snd (loadDictionary e s key dic aff)) = currentSpellCheckerKey s"
  "currentSpellCheckerStartTime (snd (loadDictionary e s key dic aff)) = currentSpellCheckerStartTime s"
  "webFrameProvider (snd (loadDictionary e s key dic aff)) = webFrameProvider s"
  "verboseLog (snd (loadDictionary e s key dic aff)) = verboseLog s"
  by (cases dic; cases aff;
      simp add: loadDictionary_def mountFileDictionary_eq mountBufferDictionary_eq)+

lemma loadDictionary_table:
  assumes "loadDictionary e s key dic aff = (Return (), s')"
  shows "\<exists>c. spellCheckerTable s' = spellCheckerTable s @ [(key, c)] \<and> uptime c = 0"
    and "key \<notin> fst ` set (spellCheckerTable s)"
proof -
  from loadDictionary_Return[OF assms]
  have u: "js_get (spellCheckerTable s) key = Undefined" by simp
  from loadDictionary_Return_table[OF assms]
  obtain m s1 where s': "s' = assignSpellchecker e s1 key m"
    and t: "spellCheckerTable s1 = spellCheckerTable s" by blast
  from u show k: "key \<notin> fst ` set (spellCheckerTable s)" by (simp add: js_get_Undefined_iff)
  then show "\<exists>c. spellCheckerTable s' = spellCheckerTable s @ [(key, c)] \<and> uptime c = 0"
    by (simp add: s' table_assignSpellchecker t js_set_def update_fresh)
qed

subsection \<open>The ref-count table and the files of the loaded dictionaries\<close>

lemma unmounted_append: "unmounted (xs @ ys) = unmounted xs @ unmounted ys"
  by (induction xs rule: unmounted.induct) auto

lemma matches_get:
  assumes "matches rc cnt"
  shows "js_get rc x = (if cnt x = 0 then (if x \<in> set object_prototype_keys then Inherited else Undefined)
                        else Own (Num (int (cnt x))))"
  using assms by (simp add: matches_def js_get_def)

lemma matches_increase:
  assumes m: "matches (fileMountRefCount s) cnt"
    and p: "dirname e p \<notin> set object_prototype_keys"
  shows "matches (fileMountRefCount (increaseRefCount e s p))
           (cnt(dirname e p := Suc (cnt (dirname e p))))"
proof -
  have g: "js_get (fileMountRefCount s) (dirname e p) =
      (if cnt (dirname e p) = 0 then Undefined else Own (Num (int (cnt (dirname e p)))))"
    using matches_get[OF m, of "dirname e p"] p by simp
  have "map_of (fileMountRefCount (increaseRefCount e s p)) =
        (map_of (fileMountRefCount s))(dirname e p \<mapsto> Num (int (cnt (dirname e p)) + 1))"
    using g by (auto simp: increaseRefCount_def Let_def js_set_def update_conv')
  then show ?thesis using m p by (auto simp: matches_def)
qed

lemma matches_decrease:
  assumes m: "matches (fileMountRefCount s) cnt"
    and pos: "0 < cnt (dirname e p)"
  shows "matches (fileMountRefCount (snd (decreaseRefCount e s p)))
           (cnt(dirname e p := cnt (dirname e p) - 1))"
    and "fst (decreaseRefCount e s p) = Num (int (cnt (dirname e p)) - 1)"
    and "trace (snd (decreaseRefCount e s p)) = trace s @ [Log Debug]"
proof -
  let ?d = "dirname e p"
  have np: "?d \<notin> set object_prototype_keys" using m pos by (auto simp: matches_def)
  have g: "js_get (fileMountRefCount s) ?d = Own (Num (int (cnt ?d)))"
    using matches_get[OF m, of ?d] pos by simp
  let ?rc1 = "js_set (fileMountRefCount s) ?d (Num (int (cnt ?d) - 1))"
  let ?rc2 = "if cnt ?d = 1 then js_delete ?rc1 ?d else ?rc1"
  have g1: "js_get ?rc1 ?d = Own (Num (int (cnt ?d) - 1))" by (simp add: js_get_set)
  have r: "decreaseRefCount e s p =
      (Num (int (cnt ?d) - 1), log Debug (s\<lparr>fileMountRefCount := ?rc2\<rparr>))"
    using g pos np by (auto simp: decreaseRefCount_def Let_def js_get_set js_get_delete)
  show "fst (decreaseRefCount e s p) = Num (int (cnt ?d) - 1)" by (simp add: r)
  show "trace (snd (decreaseRefCount e s p)) = trace s @ [Log Debug]" by (simp add: r)
  have "map_of ?rc2 = (if cnt ?d = 1 then (map_of (fileMountRefCount s))(?d := None)
                        else (map_of (fileMountRefCount s))(?d \<mapsto> Num (int (cnt ?d) - 1)))"
    by (auto simp: js_set_def js_delete_def update_conv' delete_conv')
  then show "matches (fileMountRefCount (snd (decreaseRefCount e s p)))
           (cnt(?d := cnt ?d - 1))"
    using m pos by (auto simp: r matches_def of_nat_diff)
qed

lemma matches_unmountPath:
  assumes m: "matches (fileMountRefCount s) cnt"
    and pos: "0 < cnt (dirname e p)"
  shows "matches (fileMountRefCount (unmountPath e s p))
           (cnt(dirname e p := cnt (dirname e p) - 1))"
    and "trace (unmountPath e s p) =
           trace s @ Log Debug # (if cnt (dirname e p) = 1 then [Unmount (dirname e p)] else [])"
proof -
  note d = matches_decrease[OF m pos]
  obtain r s1 where rs: "decreaseRefCount e s p = (r, s1)" by (cases "decreaseRefCount e s p")
  with d have r: "r = Num (int (cnt (dirname e p)) - 1)"
    and t: "trace s1 = trace s @ [Log Debug]"
    and m1: "matches (fileMountRefCount s1) (cnt(dirname e p := cnt (dirname e p) - 1))"
    by simp_all
  have z: "(r = Num 0) = (cnt (dirname e p) = 1)" using pos by (auto simp: r)
  show "matches (fileMountRefCount (unmountPath e s p))
           (cnt(dirname e p := cnt (dirname e p) - 1))"
    using m1 by (simp add: unmountPath_def rs)
  show "trace (unmountPath e s p) =
           trace s @ Log Debug # (if cnt (dirname e p) = 1 then [Unmount (dirname e p)] else [])"
    using t z by (simp add: unmountPath_def rs)
qed

lemma matches_unmountFile:
  assumes m: "matches (fileMountRefCount s) cnt"
    and ge: "\<And>x. file_refs e (UnmountFile a d) x \<le> cnt x"
  shows "matches (fileMountRefCount (unmountFile e s a d))
           (\<lambda>x. cnt x - file_refs e (UnmountFile a d) x)"
    and "unmounted (new_events s (unmountFile e s a d)) =
           filter (\<lambda>x. cnt x = file_refs e (UnmountFile a d) x)
             (if dirname e a = dirname e d then [dirname e d] else [dirname e a, dirname e d])"
proof -
  let ?da = "dirname e a" and ?dd = "dirname e d"
  let ?cnt1 = "cnt(?da := cnt ?da - 1)"
  have pa: "0 < cnt ?da" using ge[of ?da] by (simp add: file_refs_def split: if_splits)
  note u1 = matches_unmountPath[OF m pa]
  have pd: "0 < ?cnt1 ?dd" using ge[of ?dd] by (simp add: file_refs_def split: if_splits)
  note u2 = matches_unmountPath[OF u1(1) pd]
  have eq: "?cnt1(?dd := ?cnt1 ?dd - 1) = (\<lambda>x. cnt x - file_refs e (UnmountFile a d) x)"
    by (auto simp: fun_eq_iff file_refs_def)
  have "matches (fileMountRefCount (unmountPath e (unmountPath e s a) d))
          (?cnt1(?dd := ?cnt1 ?dd - 1))"
    by (rule u2(1))
  then have "matches (fileMountRefCount (unmountPath e (unmountPath e s a) d))
          (\<lambda>x. cnt x - file_refs e (UnmountFile a d) x)"
    by (simp only: eq)
  then show "matches (fileMountRefCount (unmountFile e s a d))
           (\<lambda>x. cnt x - file_refs e (UnmountFile a d) x)"
    by (simp add: unmountFile_def)
  have t: "trace (unmountFile e s a d) =
      trace s @ (Log Debug # (if cnt ?da = 1 then [Unmount ?da] else [])
                 @ Log Debug # (if ?cnt1 ?dd = 1 then [Unmount ?dd] else [])
                 @ [DisposeHunspell a d])"
    by (simp add: unmountFile_def u1(2) u2(2))
  show "unmounted (new_events s (unmountFile e s a d)) =
           filter (\<lambda>x. cnt x = file_refs e (UnmountFile a d) x)
             (if dirname e a = dirname e d then [dirname e d] else [dirname e a, dirname e d])"
  proof (cases "?da = ?dd")
    case True
    with ge[of ?dd] have "2 \<le> cnt ?dd" by (simp add: file_refs_def)
    with True show ?thesis
      unfolding new_events_append[OF t] by (auto simp: unmounted_append file_refs_def)
  next
    case False
    then show ?thesis
      unfolding new_events_append[OF t] by (auto simp: unmounted_append file_refs_def)
  qed
qed

lemma sum_list_delete:
  fixes f :: "'k \<times> 'v \<Rightarrow> nat"
  assumes "distinct (map fst al)" and "map_of al k = Some v"
  shows "sum_list (map f al) = f (k, v) + sum_list (map f (AList.delete k al))"
  using assms
proof (induction al)
  case Nil
  then show ?case by simp
next
  case (Cons p ps)
  show ?case
  proof (cases "fst p = k")
    case True
    with Cons.prems have "p = (k, v)" by (cases p) auto
    moreover from Cons.prems True have "k \<notin> fst ` set ps" by auto
    then have "AList.delete k ps = ps" by (induction ps) auto
    ultimately show ?thesis by simp
  next
    case False
    with Cons show ?thesis by (cases p) auto
  qed
qed

lemma map_update_same:
  assumes "map_of al k = Some v" and "\<And>k'. f (k', v') = f (k', v)"
  shows "map f (AList.update k v' al) = map f al"
  using assms(1)
proof (induction al)
  case Nil
  then show ?case by simp
next
  case (Cons p ps)
  then show ?case using assms(2) by (cases p) (auto split: if_splits)
qed

lemma refs_delete:
  assumes "distinct (map fst t)" and "js_get t key = Own c"
  shows "refs e t x = file_refs e (dispose c) x + refs e (js_delete t key) x"
proof -
  from assms(2) have "map_of t key = Some c"
    by (auto simp: js_get_def split: option.splits if_splits)
  from sum_list_delete[OF assms(1) this, of "\<lambda>(k, c). file_refs e (dispose c) x"]
  show ?thesis by (simp add: refs_def js_delete_def)
qed

lemma refs_set_uptime:
  assumes "js_get t key = Own c"
  shows "refs e (js_set t key (c\<lparr>uptime := u\<rparr>)) x = refs e t x"
proof -
  from assms have "map_of t key = Some c"
    by (auto simp: js_get_def split: option.splits if_splits)
  from map_update_same[OF this, of "\<lambda>(k, c). file_refs e (dispose c) x" "c\<lparr>uptime := u\<rparr>"]
  show ?thesis by (simp add: refs_def js_set_def)
qed

lemma refs_append: "refs e (t @ [(k, c)]) x = refs e t x + file_refs e (dispose c) x"
  by (simp add: refs_def)

subsection \<open>What the other operations leave alone\<close>

lemma checkOthers_frame:
  "spellCheckerTable (snd (checkOthers s text ks)) = spellCheckerTable s
   \<and> fileMountRefCount (snd (checkOthers s text ks)) = fileMountRefCount s
   \<and> currentSpellCheckerKey (snd (checkOthers s text ks)) = currentSpellCheckerKey s
   \<and> currentSpellCheckerStartTime (snd (checkOthers s text ks)) = currentSpellCheckerStartTime s
   \<and> webFrameProvider (snd (checkOthers s text ks)) = webFrameProvider s
   \<and> hunspellFactory (snd (checkOthers s text ks)) = hunspellFactory s
   \<and> verboseLog (snd (checkOthers s text ks)) = verboseLog s"
  by (induction ks arbitrary: s) (auto simp: Let_def split: property.splits)

lemma invoke_frame:
  "spellCheckerTable (snd (invoke s cb text)) = spellCheckerTable s
   \<and> fileMountRefCount (snd (invoke s cb text)) = fileMountRefCount s
   \<and> currentSpellCheckerKey (snd (invoke s cb text)) = currentSpellCheckerKey s
   \<and> currentSpellCheckerStartTime (snd (invoke s cb text)) = currentSpellCheckerStartTime s
   \<and> webFrameProvider (snd (invoke s cb text)) = webFrameProvider s
   \<and> hunspellFactory (snd (invoke s cb text)) = hunspellFactory s
   \<and> verboseLog (snd (invoke s cb text)) = verboseLog s"
  by (cases cb) (auto simp: invoke_def provider_def Let_def checkOthers_frame split: property.splits)

lemma getSuggestion_frame:
  "spellCheckerTable (snd (getSuggestion s text)) = spellCheckerTable s
   \<and> fileMountRefCount (snd (getSuggestion s text)) = fileMountRefCount s
   \<and> currentSpellCheckerKey (snd (getSuggestion s text)) = currentSpellCheckerKey s
   \<and> currentSpellCheckerStartTime (snd (getSuggestion s text)) = currentSpellCheckerStartTime s
   \<and> webFrameProvider (snd (getSuggestion s text)) = webFrameProvider s
   \<and> hunspellFactory (snd (getSuggestion s text)) = hunspellFactory s
   \<and> verboseLog (snd (getSuggestion s text)) = verboseLog s"
  by (auto simp: getSuggestion_def Let_def split: option.splits property.splits)

lemma initialize_frame:
  "spellCheckerTable (initialize s) = spellCheckerTable s
   \<and> fileMountRefCount (initialize s) = fileMountRefCount s
   \<and> currentSpellCheckerKey (initialize s) = currentSpellCheckerKey s
   \<and> currentSpellCheckerStartTime (initialize s) = currentSpellCheckerStartTime s
   \<and> webFrameProvider (initialize s) = webFrameProvider s
   \<and> verboseLog (initialize s) = verboseLog s"
  by (simp add: initialize_def)

lemma fields_clearSelection [simp]:
  "hunspellFactory (clearSelection e s k) = hunspellFactory s"
  "spellCheckerTable (clearSelection e s k) = spellCheckerTable s"
  "verboseLog (clearSelection e s k) = verboseLog s"
  "fileMountRefCount (clearSelection e s k) = fileMountRefCount s"
  by (simp_all add: clearSelection_def)

lemma trace_clearSelection:
  "trace (clearSelection e s k) =
     trace s @ (if currentSpellCheckerKey s = Some k \<and> k \<noteq> []
                then [Log Warn, if renderer e then SetSpellCheckProvider k AlwaysTrue else Log Warn]
                else [])"
  by (simp add: clearSelection_def)

text \<open>What \<open>addUptime\<close> does to the table.\<close>

lemma addUptime_table:
  "spellCheckerTable (snd (addUptime s now)) =
     (case (currentSpellCheckerStartTime s, currentSpellCheckerKey s) of
        (Some t0, Some cur) \<Rightarrow>
          (case js_get (spellCheckerTable s) cur of
             Own c \<Rightarrow> if cur = [] then spellCheckerTable s
                      else js_set (spellCheckerTable s) cur (c\<lparr>uptime := to_double (uptime c + to_double (now - t0))\<rparr>)
           | Inherited \<Rightarrow> spellCheckerTable s
           | Undefined \<Rightarrow> spellCheckerTable s)
      | (Some t0, None) \<Rightarrow> spellCheckerTable s
      | (None, k) \<Rightarrow> spellCheckerTable s)"
  by (auto simp: addUptime_def Let_def split: option.splits property.splits)

lemma addUptime_frame:
  "fileMountRefCount (snd (addUptime s now)) = fileMountRefCount s
   \<and> currentSpellCheckerKey (snd (addUptime s now)) = currentSpellCheckerKey s
   \<and> currentSpellCheckerStartTime (snd (addUptime s now)) = currentSpellCheckerStartTime s
   \<and> webFrameProvider (snd (addUptime s now)) = webFrameProvider s
   \<and> hunspellFactory (snd (addUptime s now)) = hunspellFactory s
   \<and> verboseLog (snd (addUptime s now)) = verboseLog s"
  by (auto simp: addUptime_def Let_def split: option.splits property.splits)

lemma switchDictionary_table:
  "spellCheckerTable (snd (switchDictionary e s key checkAll now1 now2)) =
     (if key = [] \<or> js_get (spellCheckerTable s) key = Undefined then spellCheckerTable s
      else spellCheckerTable (snd (addUptime (log Info s) now1)))"
  by (auto simp: switchDictionary_def attach_def split: prod.splits result.splits)

lemma switchDictionary_frame:
  "fileMountRefCount (snd (switchDictionary e s key checkAll now1 now2)) = fileMountRefCount s
   \<and> hunspellFactory (snd (switchDictionary e s key checkAll now1 now2)) = hunspellFactory s
   \<and> verboseLog (snd (switchDictionary e s key checkAll now1 now2)) = verboseLog s"
proof -
  obtain r s1 where a: "addUptime (log Info s) now1 = (r, s1)"
    by (cases "addUptime (log Info s) now1")
  with addUptime_frame[of "log Info s" now1]
  have "fileMountRefCount s1 = fileMountRefCount s \<and> hunspellFactory s1 = hunspellFactory s
        \<and> verboseLog s1 = verboseLog s" by simp
  then show ?thesis
    by (cases r) (auto simp: switchDictionary_def attach_def a)
qed

subsection \<open>Every reachable state is consistent\<close>

lemma consistent_initial: "consistent e initial"
  by (simp add: consistent_def initial_def matches_def refs_def)

lemma rc_assignSpellchecker:
  "fileMountRefCount (assignSpellchecker e s key m) =
     (if buffer m then fileMountRefCount s
      else fileMountRefCount
             (increaseRefCount e (increaseRefCount e (emit (Create (affPath m) (dicPath m)) s)
                (affPath m)) (dicPath m)))"
  by (simp add: assignSpellchecker_def Let_def)

lemma loadDictionary_Throw:
  "fst (loadDictionary e s key dic aff) = Throw err \<Longrightarrow> snd (loadDictionary e s key dic aff) = s"
  by (cases dic; cases aff) (auto simp: loadDictionary_def split: if_splits prod.splits)

lemma consistent_load:
  assumes c: "consistent e s" and ok: "mounts_ok e"
  shows "consistent e (snd (loadDictionary e s key dic aff))"
proof (cases "fst (loadDictionary e s key dic aff)")
  case (Throw err)
  then show ?thesis using c by (simp add: loadDictionary_Throw)
next
  case (Return u)
  obtain s' where l: "loadDictionary e s key dic aff = (Return (), s')"
    using Return by (cases "loadDictionary e s key dic aff") auto
  let ?t = "spellCheckerTable s"
  from loadDictionary_table[OF l] obtain en where
    t': "spellCheckerTable s' = ?t @ [(key, en)]" and fresh: "key \<notin> fst ` set ?t" by blast
  from loadDictionary_Return[OF l] have ne: "key \<noteq> []" by simp
  have d: "distinct (map fst (spellCheckerTable s'))" "[] \<notin> fst ` set (spellCheckerTable s')"
    using c fresh ne by (auto simp: t' consistent_def)
  from c have m: "matches (fileMountRefCount s) (refs e ?t)" by (simp add: consistent_def)
  have "matches (fileMountRefCount s') (refs e (spellCheckerTable s'))"
    using loadDictionary_Return[OF l]
  proof (elim conjE disjE exE)
    fix dp ap
    assume s': "s' = assignSpellchecker e
        (emit (MountDirectory (dirname e dp)) (emit (MountDirectory (dirname e ap)) s)) key
        \<lparr>affPath = getMountedPath e ap, dicPath = getMountedPath e dp, buffer = False\<rparr>"
    let ?a = "getMountedPath e ap" and ?d = "getMountedPath e dp"
    let ?s0 = "emit (Create ?a ?d)
                (emit (MountDirectory (dirname e dp)) (emit (MountDirectory (dirname e ap)) s))"
    have pa: "dirname e ?a \<notin> set object_prototype_keys"
      and pd: "dirname e ?d \<notin> set object_prototype_keys"
      using ok by (simp_all add: mounts_ok_def)
    have m0: "matches (fileMountRefCount ?s0) (refs e ?t)" using m by simp
    note m1 = matches_increase[OF m0 pa]
    note m2 = matches_increase[OF m1 pd]
    have en: "dispose en = UnmountFile ?a ?d"
      using t' fresh by (auto simp: s' table_assignSpellchecker js_set_def update_fresh)
    have "refs e (spellCheckerTable s') =
        ((refs e ?t)(dirname e ?a := Suc (refs e ?t (dirname e ?a))))
          (dirname e ?d := Suc (((refs e ?t)(dirname e ?a := Suc (refs e ?t (dirname e ?a)))) (dirname e ?d)))"
      by (auto simp: fun_eq_iff t' refs_append en file_refs_def)
    with m2 show ?thesis by (simp add: s' rc_assignSpellchecker)
  next
    fix dp ap
    assume s': "s' = assignSpellchecker e (emit (MountBuffer dp) (emit (MountBuffer ap) s)) key
        \<lparr>affPath = mountBuffer e (trace s) ap,
         dicPath = mountBuffer e (trace s @ [MountBuffer ap]) dp, buffer = True\<rparr>"
    have en: "\<exists>a d. dispose en = UnmountBuffer a d"
      using t' fresh by (auto simp: s' table_assignSpellchecker js_set_def update_fresh)
    then have "refs e (spellCheckerTable s') = refs e ?t"
      by (auto simp: fun_eq_iff t' refs_append file_refs_def)
    with m show ?thesis by (simp add: s' rc_assignSpellchecker)
  qed
  with d show ?thesis by (simp add: consistent_def l)
qed

lemma fields_unmountFile [simp]:
  "hunspellFactory (unmountFile e s a d) = hunspellFactory s"
  "spellCheckerTable (unmountFile e s a d) = spellCheckerTable s"
  "currentSpellCheckerKey (unmountFile e s a d) = currentSpellCheckerKey s"
  "verboseLog (unmountFile e s a d) = verboseLog s"
  "currentSpellCheckerStartTime (unmountFile e s a d) = currentSpellCheckerStartTime s"
  "webFrameProvider (unmountFile e s a d) = webFrameProvider s"
  by (simp_all add: unmountFile_def)

lemma trace_unmountPath_ext: "\<exists>es. trace (unmountPath e s p) = trace s @ es"
  by (cases "decreaseRefCount e s p")
     (use fields_decreaseRefCount(7)[of e s p] in \<open>auto simp: unmountPath_def\<close>)

lemma trace_unmountFile_ext:
  "trace (unmountFile e s a d) = trace s @ new_events s (unmountFile e s a d)"
proof -
  obtain es1 where 1: "trace (unmountPath e s a) = trace s @ es1"
    using trace_unmountPath_ext by blast
  obtain es2 where 2: "trace (unmountPath e (unmountPath e s a) d) = trace (unmountPath e s a) @ es2"
    using trace_unmountPath_ext by blast
  have "trace (unmountFile e s a d) = trace s @ (es1 @ es2 @ [DisposeHunspell a d])"
    by (simp add: unmountFile_def 1 2)
  then show ?thesis by (simp add: new_events_def)
qed

lemma js_get_Own_map_of: "js_get t k = Own c \<longleftrightarrow> map_of t k = Some c"
  by (auto simp: js_get_def split: option.splits)

lemma unloadDictionary_file:
  assumes c: "consistent e s"
    and own: "js_get (spellCheckerTable s) key = Own dict"
    and f: "dispose dict = UnmountFile a d"
  shows "fst (unloadDictionary e s key) = Return ()"
    and "spellCheckerTable (snd (unloadDictionary e s key)) = js_delete (spellCheckerTable s) key"
    and "matches (fileMountRefCount (snd (unloadDictionary e s key)))
           (refs e (js_delete (spellCheckerTable s) key))"
    and "unmounted (new_events s (snd (unloadDictionary e s key))) =
           filter (\<lambda>x. refs e (js_delete (spellCheckerTable s) key) x = 0)
             (if dirname e a = dirname e d then [dirname e d] else [dirname e a, dirname e d])"
proof -
  let ?t = "spellCheckerTable s"
  let ?s1 = "clearSelection e s key"
  let ?s2 = "unmountFile e ?s1 a d"
  from c have dist: "distinct (map fst ?t)" and m: "matches (fileMountRefCount s) (refs e ?t)"
    and ne: "[] \<notin> fst ` set ?t"
    by (simp_all add: consistent_def)
  from own have "(key, dict) \<in> set ?t" by (simp add: js_get_Own_map_of map_of_SomeD)
  with ne have k: "key \<noteq> []" by force
  have u: "unloadDictionary e s key =
      (Return (), log Info (?s2\<lparr>spellCheckerTable := js_delete ?t key\<rparr>))"
    using own k f by (simp add: unloadDictionary_def Let_def run_dispose_def)
  show "fst (unloadDictionary e s key) = Return ()" by (simp add: u)
  show "spellCheckerTable (snd (unloadDictionary e s key)) = js_delete ?t key" by (simp add: u)
  have r: "refs e ?t x = file_refs e (UnmountFile a d) x + refs e (js_delete ?t key) x" for x
    using refs_delete[OF dist own, of e x] by (simp add: f)
  have ge: "file_refs e (UnmountFile a d) x \<le> refs e ?t x" for x
    by (simp add: r)
  have m1: "matches (fileMountRefCount ?s1) (refs e ?t)" using m by simp
  note uf = matches_unmountFile[OF m1 ge]
  have eq: "(\<lambda>x. refs e ?t x - file_refs e (UnmountFile a d) x) = refs e (js_delete ?t key)"
    by (simp add: fun_eq_iff r)
  from uf(1) show "matches (fileMountRefCount (snd (unloadDictionary e s key)))
           (refs e (js_delete ?t key))"
    by (simp add: u eq)
  have "trace (snd (unloadDictionary e s key)) =
        trace s @ ((if currentSpellCheckerKey s = Some key \<and> key \<noteq> []
                then [Log Warn, if renderer e then SetSpellCheckProvider key AlwaysTrue else Log Warn]
                else []) @ new_events ?s1 ?s2 @ [Log Info])"
    using trace_unmountFile_ext[of e ?s1 a d] by (simp add: u trace_clearSelection)
  from new_events_append[OF this]
  have "unmounted (new_events s (snd (unloadDictionary e s key))) = unmounted (new_events ?s1 ?s2)"
    by (simp add: unmounted_append)
  also have "\<dots> = filter (\<lambda>x. refs e ?t x = file_refs e (UnmountFile a d) x)
             (if dirname e a = dirname e d then [dirname e d] else [dirname e a, dirname e d])"
    by (rule uf(2))
  also have "\<dots> = filter (\<lambda>x. refs e (js_delete ?t key) x = 0)
             (if dirname e a = dirname e d then [dirname e d] else [dirname e a, dirname e d])"
    by (simp add: r)
  finally show "unmounted (new_events s (snd (unloadDictionary e s key))) =
           filter (\<lambda>x. refs e (js_delete (spellCheckerTable s) key) x = 0)
             (if dirname e a = dirname e d then [dirname e d] else [dirname e a, dirname e d])" .
qed

lemma unloadDictionary_buffer:
  assumes c: "consistent e s"
    and own: "js_get (spellCheckerTable s) key = Own dict"
    and f: "dispose dict = UnmountBuffer a d"
  shows "spellCheckerTable (snd (unloadDictionary e s key)) = js_delete (spellCheckerTable s) key"
    and "matches (fileMountRefCount (snd (unloadDictionary e s key)))
           (refs e (js_delete (spellCheckerTable s) key))"
proof -
  let ?t = "spellCheckerTable s"
  from c have dist: "distinct (map fst ?t)" and m: "matches (fileMountRefCount s) (refs e ?t)"
    and ne: "[] \<notin> fst ` set ?t"
    by (simp_all add: consistent_def)
  from own have "(key, dict) \<in> set ?t" by (simp add: js_get_Own_map_of map_of_SomeD)
  with ne have k: "key \<noteq> []" by force
  have u: "unloadDictionary e s key =
      (Return (), log Info ((unmountBuffer (clearSelection e s key) a d)
                              \<lparr>spellCheckerTable := js_delete ?t key\<rparr>))"
    using own k f by (simp add: unloadDictionary_def Let_def run_dispose_def unmountBuffer_def)
  show "spellCheckerTable (snd (unloadDictionary e s key)) = js_delete ?t key" by (simp add: u)
  have "refs e ?t = refs e (js_delete ?t key)"
    using refs_delete[OF dist own, of e] by (simp add: f fun_eq_iff file_refs_def)
  with m show "matches (fileMountRefCount (snd (unloadDictionary e s key)))
           (refs e (js_delete ?t key))"
    by (simp add: u unmountBuffer_def)
qed

lemma consistent_unload:
  assumes c: "consistent e s"
  shows "consistent e (snd (unloadDictionary e s key))"
proof (cases "js_get (spellCheckerTable s) key")
  case (Own dict)
  have d: "distinct (map fst (js_delete (spellCheckerTable s) key))"
    "[] \<notin> fst ` set (js_delete (spellCheckerTable s) key)"
    using c dom_delete_subset[of key "spellCheckerTable s"]
    by (auto simp: consistent_def js_delete_def distinct_delete)
  show ?thesis
  proof (cases "dispose dict")
    case (UnmountFile a d')
    from unloadDictionary_file(2,3)[OF c Own UnmountFile] d show ?thesis
      by (simp add: consistent_def)
  next
    case (UnmountBuffer a d')
    from unloadDictionary_buffer[OF c Own UnmountBuffer] d show ?thesis
      by (simp add: consistent_def)
  qed
next
  case Inherited
  then show ?thesis using c
    by (simp add: unloadDictionary_def Let_def consistent_def)
next
  case Undefined
  then show ?thesis using c
    by (simp add: unloadDictionary_def consistent_def)
qed

lemma consistent_addUptime:
  assumes c: "consistent e s"
  shows "consistent e (snd (addUptime s now))"
proof -
  have rc: "fileMountRefCount (snd (addUptime s now)) = fileMountRefCount s"
    using addUptime_frame[of s now] by simp
  let ?t = "spellCheckerTable s"
  have "spellCheckerTable (snd (addUptime s now)) = ?t
      \<or> (\<exists>cur c u. js_get ?t cur = Own c
            \<and> spellCheckerTable (snd (addUptime s now)) = js_set ?t cur (c\<lparr>uptime := u\<rparr>))"
    by (auto simp: addUptime_table split: option.splits property.splits)
  then show ?thesis
  proof (elim disjE exE conjE)
    assume "spellCheckerTable (snd (addUptime s now)) = ?t"
    with c rc show ?thesis by (simp add: consistent_def)
  next
    fix cur c u
    assume own: "js_get ?t cur = Own c"
      and t': "spellCheckerTable (snd (addUptime s now)) = js_set ?t cur (c\<lparr>uptime := u\<rparr>)"
    from own have "cur \<in> fst ` set ?t"
      by (force simp: js_get_Own_map_of dest: map_of_SomeD)
    then have k: "map fst (js_set ?t cur (c\<lparr>uptime := u\<rparr>)) = map fst ?t"
      by (simp add: js_set_def update_keys)
    have r: "refs e (js_set ?t cur (c\<lparr>uptime := u\<rparr>)) = refs e ?t"
      using refs_set_uptime[OF own] by (simp add: fun_eq_iff)
    have "fst ` set (js_set ?t cur (c\<lparr>uptime := u\<rparr>)) = fst ` set ?t"
      using k by (metis set_map)
    with c rc k r show ?thesis by (simp add: consistent_def t')
  qed
qed

lemma consistent_log: "consistent e (log l s) = consistent e s"
  by (simp add: consistent_def)

lemma consistent_switch:
  assumes c: "consistent e s"
  shows "consistent e (snd (switchDictionary e s key checkAll now1 now2))"
proof -
  have "consistent e (snd (addUptime (log Info s) now1))"
    using c by (intro consistent_addUptime) (simp add: consistent_log)
  moreover have "fileMountRefCount (snd (switchDictionary e s key checkAll now1 now2))
      = fileMountRefCount s"
    using switchDictionary_frame[of e s key checkAll now1 now2] by simp
  moreover have "fileMountRefCount (snd (addUptime (log Info s) now1)) = fileMountRefCount s"
    using addUptime_frame[of "log Info s" now1] by simp
  ultimately show ?thesis using c
    by (simp add: consistent_def switchDictionary_table)
qed

lemma consistent_exec:
  assumes c: "consistent e s" and ok: "mounts_ok e"
  shows "consistent e (exec e s call)"
proof (cases call)
  case Initialize
  with c initialize_frame[of s] show ?thesis by (simp add: exec_def consistent_def)
next
  case (SetVerboseLog v)
  with c show ?thesis by (simp add: exec_def consistent_def set_verboseLog_def)
next
  case (LoadDictionary key dic aff)
  with consistent_load[OF c ok] show ?thesis by (simp add: exec_def)
next
  case (UnloadDictionary key)
  with consistent_unload[OF c] show ?thesis by (simp add: exec_def)
next
  case (SwitchDictionary key checkAll now1 now2)
  with consistent_switch[OF c] show ?thesis by (simp add: exec_def)
next
  case (GetSuggestion w)
  with c getSuggestion_frame[of s w] show ?thesis by (simp add: exec_def consistent_def)
next
  case (SpellCheck w)
  show ?thesis
  proof (cases "webFrameProvider s")
    case None
    with c SpellCheck show ?thesis by (simp add: exec_def)
  next
    case (Some p)
    obtain l cb where p: "p = (l, cb)" by (cases p)
    with c SpellCheck Some invoke_frame[of s cb w] show ?thesis
      by (simp add: exec_def consistent_def)
  qed
qed

lemma consistent_run:
  assumes "consistent e s" and "mounts_ok e"
  shows "consistent e (run e s cs)"
  using assms(1)
  by (induction cs arbitrary: s) (simp_all add: run_def consistent_exec assms(2))

lemma consistent_reachable: "mounts_ok e \<Longrightarrow> consistent e (run e initial cs)"
  by (rule consistent_run[OF consistent_initial])

lemma matches_count_of: "matches rc cnt \<Longrightarrow> count_of rc x = int (cnt x)"
  by (simp add: count_of_def matches_get)

subsection \<open>The entries across calls\<close>

lemma js_get_append_fresh:
  "k' \<notin> fst ` set t \<Longrightarrow> js_get (t @ [(k', c)]) k = (if k = k' then Own c else js_get t k)"
  using js_get_set[of t k' c k] by (simp add: js_set_def update_fresh)

lemma js_get_load_other:
  assumes "js_get (spellCheckerTable s) k = Own c"
  shows "js_get (spellCheckerTable (snd (loadDictionary e s key dic aff))) k = Own c"
proof (cases "fst (loadDictionary e s key dic aff)")
  case (Throw err)
  then show ?thesis using assms by (simp add: loadDictionary_Throw)
next
  case (Return u)
  then obtain s' where l: "loadDictionary e s key dic aff = (Return (), s')"
    by (cases "loadDictionary e s key dic aff") auto
  from loadDictionary_table[OF l] obtain en where
    t': "spellCheckerTable s' = spellCheckerTable s @ [(key, en)]"
    and fresh: "key \<notin> fst ` set (spellCheckerTable s)" by blast
  from assms fresh have "k \<noteq> key"
    by (auto simp: js_get_Own_map_of dest!: map_of_SomeD intro: rev_image_eqI)
  then show ?thesis using assms by (simp add: l t' js_get_append_fresh[OF fresh])
qed

lemma unloadDictionary_table:
  "spellCheckerTable (snd (unloadDictionary e s key)) = spellCheckerTable s
   \<or> spellCheckerTable (snd (unloadDictionary e s key)) = js_delete (spellCheckerTable s) key"
  by (auto simp: unloadDictionary_def Let_def split: property.splits)

lemma js_get_unload_other:
  assumes "k \<noteq> key"
  shows "js_get (spellCheckerTable (snd (unloadDictionary e s key))) k
         = js_get (spellCheckerTable s) k"
  using unloadDictionary_table[of e s key] assms by (auto simp: js_get_delete)

lemma switchDictionary_entries:
  assumes "js_get (spellCheckerTable s) k = Own c"
  shows "js_get (spellCheckerTable (snd (switchDictionary e s key checkAll now1 now2))) k =
     (if key \<noteq> [] \<and> js_get (spellCheckerTable s) key \<noteq> Undefined
         \<and> currentSpellCheckerKey s = Some k \<and> k \<noteq> []
         \<and> currentSpellCheckerStartTime s \<noteq> None
      then Own (c\<lparr>uptime :=
                    to_double (uptime c
                               + to_double (now1 - the (currentSpellCheckerStartTime s)))\<rparr>)
      else Own c)"
  using assms
  by (auto simp: switchDictionary_table addUptime_table js_get_set
           split: option.splits property.splits)

lemma uptime_exec:
  assumes own: "js_get (spellCheckerTable s) k = Own c"
    and dbl: "is_double (uptime c)"
    and nu: "call \<noteq> UnloadDictionary k"
    and ck: "clocks_ok e s [call]"
  shows "\<exists>c'. js_get (spellCheckerTable (exec e s call)) k = Own c'
              \<and> uptime c \<le> uptime c' \<and> is_double (uptime c')"
proof (cases call)
  case Initialize
  with own dbl initialize_frame[of s] show ?thesis by (simp add: exec_def)
next
  case (SetVerboseLog v)
  with own dbl show ?thesis by (simp add: exec_def set_verboseLog_def)
next
  case (LoadDictionary key dic aff)
  with js_get_load_other[OF own] dbl show ?thesis by (simp add: exec_def)
next
  case (UnloadDictionary key)
  with nu have "k \<noteq> key" by simp
  from js_get_unload_other[OF this] own dbl UnloadDictionary show ?thesis
    by (simp add: exec_def)
next
  case (SwitchDictionary key checkAll now1 now2)
  show ?thesis
  proof (cases "key \<noteq> [] \<and> js_get (spellCheckerTable s) key \<noteq> Undefined
         \<and> currentSpellCheckerKey s = Some k \<and> k \<noteq> []
         \<and> currentSpellCheckerStartTime s \<noteq> None")
    case True
    then obtain t0 where t0: "currentSpellCheckerStartTime s = Some t0" by auto
    with ck SwitchDictionary have "0 \<le> now1 - t0" by simp
    from to_double_add_nonneg[OF _ this, of "uptime c"] dbl
    have le: "uptime c \<le> to_double (uptime c + to_double (now1 - t0))"
      by (simp add: is_double_def)
    have "js_get (spellCheckerTable (snd (switchDictionary e s key checkAll now1 now2))) k
        = Own (c\<lparr>uptime := to_double (uptime c + to_double (now1 - t0))\<rparr>)"
      using True t0 switchDictionary_entries[OF own, of e key checkAll now1 now2] by auto
    with le show ?thesis
      by (simp add: SwitchDictionary exec_def is_double_def to_double_idem)
  next
    case False
    then have "js_get (spellCheckerTable (snd (switchDictionary e s key checkAll now1 now2))) k
        = Own c"
      using switchDictionary_entries[OF own, of e key checkAll now1 now2] by auto
    with dbl show ?thesis by (simp add: SwitchDictionary exec_def)
  qed
next
  case (GetSuggestion w)
  with own dbl getSuggestion_frame[of s w] show ?thesis by (simp add: exec_def)
next
  case (SpellCheck w)
  show ?thesis
  proof (cases "webFrameProvider s")
    case None
    with own dbl SpellCheck show ?thesis by (simp add: exec_def)
  next
    case (Some p)
    obtain l cb where "p = (l, cb)" by (cases p)
    with own dbl SpellCheck Some invoke_frame[of s cb w] show ?thesis by (simp add: exec_def)
  qed
qed

lemma clocks_ok_Cons:
  "clocks_ok e s (call # cs) = (clocks_ok e s [call] \<and> clocks_ok e (exec e s call) cs)"
  by (cases call) simp_all

lemma uptime_run:
  assumes "js_get (spellCheckerTable s) k = Own c"
    and "is_double (uptime c)"
    and "UnloadDictionary k \<notin> set cs"
    and "clocks_ok e s cs"
  shows "\<exists>c'. js_get (spellCheckerTable (run e s cs)) k = Own c'
              \<and> uptime c \<le> uptime c' \<and> is_double (uptime c')"
  using assms
proof (induction cs arbitrary: s c)
  case Nil
  then show ?case by (simp add: run_def)
next
  case (Cons call cs)
  from Cons.prems have nu: "call \<noteq> UnloadDictionary k" and ck: "clocks_ok e s [call]"
    and ck': "clocks_ok e (exec e s call) cs" and nu': "UnloadDictionary k \<notin> set cs"
    using clocks_ok_Cons[of e s call cs] by auto
  from uptime_exec[OF Cons.prems(1,2) nu ck] obtain c1 where
    1: "js_get (spellCheckerTable (exec e s call)) k = Own c1" and le: "uptime c \<le> uptime c1"
    and d1: "is_double (uptime c1)"
    by blast
  from Cons.IH[OF 1 d1 nu' ck'] obtain c2 where
    "js_get (spellCheckerTable (run e (exec e s call) cs)) k = Own c2" "uptime c1 \<le> uptime c2"
    "is_double (uptime c2)"
    by blast
  with le show ?case by (auto simp: run_def)
qed

text \<open>Every uptime the provider holds is a double.\<close>

lemma set_update_subset: "set (AList.update k v al) \<subseteq> insert (k, v) (set al)"
  by (induction al) auto

lemma set_delete_subset: "set (AList.delete k al) \<subseteq> set al"
  by (induction al) auto

lemma uptime_double_exec:
  assumes inv: "\<forall>(k, c)\<in>set (spellCheckerTable s). is_double (uptime c)"
  shows "\<forall>(k, c)\<in>set (spellCheckerTable (exec e s call)). is_double (uptime c)"
proof (cases call)
  case Initialize
  with inv initialize_frame[of s] show ?thesis by (simp add: exec_def)
next
  case (SetVerboseLog v)
  with inv show ?thesis by (simp add: exec_def set_verboseLog_def)
next
  case (LoadDictionary key dic aff)
  obtain r s' where l: "loadDictionary e s key dic aff = (r, s')"
    by (cases "loadDictionary e s key dic aff")
  show ?thesis
  proof (cases r)
    case (Return u)
    with l have "loadDictionary e s key dic aff = (Return (), s')" by simp
    from loadDictionary_table(1)[OF this] obtain c where
      "spellCheckerTable s' = spellCheckerTable s @ [(key, c)]" "uptime c = 0" by blast
    with inv LoadDictionary l show ?thesis
      by (auto simp: exec_def is_double_def to_double_exact)
  next
    case (Throw err)
    with l loadDictionary_Throw[of e s key dic aff] have "s' = s" by simp
    with inv LoadDictionary l show ?thesis by (simp add: exec_def)
  qed
next
  case (UnloadDictionary key)
  with inv unloadDictionary_table[of e s key] set_delete_subset[of key "spellCheckerTable s"]
  show ?thesis by (auto simp: exec_def js_delete_def)
next
  case (SwitchDictionary key checkAll now1 now2)
  have "spellCheckerTable (snd (switchDictionary e s key checkAll now1 now2)) = spellCheckerTable s
      \<or> (\<exists>cur c u. spellCheckerTable (snd (switchDictionary e s key checkAll now1 now2))
            = js_set (spellCheckerTable s) cur (c\<lparr>uptime := to_double u\<rparr>))"
    by (auto simp: switchDictionary_table addUptime_table split: option.splits property.splits)
  then show ?thesis
  proof
    assume "spellCheckerTable (snd (switchDictionary e s key checkAll now1 now2))
        = spellCheckerTable s"
    with inv SwitchDictionary show ?thesis by (simp add: exec_def)
  next
    assume "\<exists>cur c u. spellCheckerTable (snd (switchDictionary e s key checkAll now1 now2))
            = js_set (spellCheckerTable s) cur (c\<lparr>uptime := to_double u\<rparr>)"
    then obtain cur c u where
      t: "spellCheckerTable (snd (switchDictionary e s key checkAll now1 now2))
            = js_set (spellCheckerTable s) cur (c\<lparr>uptime := to_double u\<rparr>)" by blast
    have "is_double (uptime (c\<lparr>uptime := to_double u\<rparr>))"
      by (simp add: is_double_def to_double_idem)
    with inv set_update_subset[of cur "c\<lparr>uptime := to_double u\<rparr>" "spellCheckerTable s"]
    show ?thesis unfolding SwitchDictionary by (auto simp: exec_def t js_set_def)
  qed
next
  case (GetSuggestion w)
  with inv getSuggestion_frame[of s w] show ?thesis by (simp add: exec_def)
next
  case (SpellCheck w)
  show ?thesis
  proof (cases "webFrameProvider s")
    case None
    with inv SpellCheck show ?thesis by (simp add: exec_def)
  next
    case (Some p)
    obtain l cb where "p = (l, cb)" by (cases p)
    with inv SpellCheck Some invoke_frame[of s cb w] show ?thesis by (simp add: exec_def)
  qed
qed

lemma uptime_double_run:
  assumes "\<forall>(k, c)\<in>set (spellCheckerTable s). is_double (uptime c)"
  shows "\<forall>(k, c)\<in>set (spellCheckerTable (run e s cs)). is_double (uptime c)"
  using assms
proof (induction cs arbitrary: s)
  case Nil
  then show ?case by (simp add: run_def)
next
  case (Cons call cs)
  from Cons.IH[OF uptime_double_exec[OF Cons.prems, of e call]] show ?case by (simp add: run_def)
qed

lemma uptime_double_reachable:
  assumes "js_get (spellCheckerTable (run e initial cs)) k = Own c"
  shows "is_double (uptime c)"
proof -
  have "\<forall>(k, c)\<in>set (spellCheckerTable (run e initial cs)). is_double (uptime c)"
    by (rule uptime_double_run) (simp add: initial_def)
  moreover from assms have "(k, c) \<in> set (spellCheckerTable (run e initial cs))"
    by (auto simp: js_get_def split: option.splits if_splits dest: map_of_SomeD)
  ultimately show ?thesis by auto
qed

lemma switchDictionary_Return:
  assumes "fst (switchDictionary e s key checkAll now1 now2) = Return ()"
  shows "currentSpellCheckerKey (snd (switchDictionary e s key checkAll now1 now2)) = Some key"
    and "currentSpellCheckerStartTime (snd (switchDictionary e s key checkAll now1 now2)) = Some now2"
    and "webFrameProvider (snd (switchDictionary e s key checkAll now1 now2)) =
           (if renderer e then Some (key, Provider key checkAll) else webFrameProvider s)"
    and "key \<noteq> []" and "js_get (spellCheckerTable s) key \<noteq> Undefined"
proof -
  obtain r s1 where a: "addUptime (log Info s) now1 = (r, s1)"
    by (cases "addUptime (log Info s) now1")
  with addUptime_frame[of "log Info s" now1]
  have w: "webFrameProvider s1 = webFrameProvider s" by simp
  from assms a w
  show "currentSpellCheckerKey (snd (switchDictionary e s key checkAll now1 now2)) = Some key"
    and "currentSpellCheckerStartTime (snd (switchDictionary e s key checkAll now1 now2)) = Some now2"
    and "webFrameProvider (snd (switchDictionary e s key checkAll now1 now2)) =
           (if renderer e then Some (key, Provider key checkAll) else webFrameProvider s)"
    and "key \<noteq> []" and "js_get (spellCheckerTable s) key \<noteq> Undefined"
    by (cases r; auto simp: switchDictionary_def attach_def split: if_splits)+
qed

lemma switchDictionary_others:
  assumes "currentSpellCheckerKey s = Some cur" and "k \<noteq> cur"
  shows "js_get (spellCheckerTable (snd (switchDictionary e s key checkAll now1 now2))) k
         = js_get (spellCheckerTable s) k"
  using assms
  by (auto simp: switchDictionary_table addUptime_table js_get_set
           split: option.splits property.splits)


subsection \<open>The attached callback\<close>

lemma provider_spec:
  fixes s :: state and key word :: string and checkAllDictionaries :: bool and c :: SpellChecker
  assumes own: "js_get (spellCheckerTable s) key = Own c"
  defines "others \<equiv> filter (\<lambda>x. x \<noteq> key) (object_keys (spellCheckerTable s))"
  defines "primary \<equiv> spell (spellChecker c) word"
  defines "r \<equiv> provider s key checkAllDictionaries word"
  shows "fst r = Return (if \<not> checkAllDictionaries \<or> others = [] \<or> primary then primary
                         else (\<exists>k\<in>set others. accepts s k word))
       \<and> queried (new_events s (snd r)) =
           key # (if \<not> checkAllDictionaries \<or> others = [] \<or> primary then []
                  else takeWhile (\<lambda>k. \<not> accepts s k word) others
                       @ take 1 (dropWhile (\<lambda>k. \<not> accepts s k word) others))
       \<and> (checkAllDictionaries \<longrightarrow>
            fst r = Return (\<exists>k\<in>set (object_keys (spellCheckerTable s)). accepts s k word))"
proof (cases "\<not> checkAllDictionaries \<or> others = [] \<or> primary")
  case True
  have r: "r = (Return primary, log_verbose Debug (emit (Spell key word) s))"
    using True own by (simp add: r_def provider_def others_def primary_def Let_def)
  have q: "queried (new_events s (snd r)) = [key]"
    by (simp add: r new_events_def)
  have "checkAllDictionaries \<Longrightarrow> primary = (\<exists>k\<in>set (object_keys (spellCheckerTable s)). accepts s k word)"
  proof -
    assume ca: checkAllDictionaries
    have k: "key \<in> set (object_keys (spellCheckerTable s))" using own by (rule js_get_Own_keys)
    have pk: "accepts s key word = primary" using own by (simp add: accepts_def primary_def)
    show ?thesis
    proof (cases primary)
      case True with k pk show ?thesis by blast
    next
      case False
      with True ca have "others = []" by simp
      then have "\<forall>k\<in>set (object_keys (spellCheckerTable s)). k = key"
        by (auto simp: others_def filter_empty_conv)
      with False pk show ?thesis by auto
    qed
  qed
  with True r q show ?thesis by simp
next
  case False
  let ?s1 = "log Debug (log_verbose Debug (emit (Spell key word) s))"
  have r: "r = checkOthers ?s1 word others"
    using False own by (simp add: r_def provider_def others_def primary_def Let_def)
  have acc: "\<And>k'. accepts ?s1 k' word = accepts s k' word" by (simp add: accepts_def)
  have "\<forall>k\<in>set others. \<exists>c. js_get (spellCheckerTable ?s1) k = Own c"
    by (auto simp: others_def dest: js_get_object_keys)
  from checkOthers_spec[OF this, of word] obtain s' es where
      c: "checkOthers ?s1 word others = (Return (\<exists>k\<in>set others. accepts ?s1 k word), s')"
      and t: "trace s' = trace ?s1 @ es"
      and q: "queried es = takeWhile (\<lambda>k. \<not> accepts ?s1 k word) others
                           @ take 1 (dropWhile (\<lambda>k. \<not> accepts ?s1 k word) others)"
    by blast
  have t': "trace (snd r) = trace s @ ((Spell key word # (if verboseLog s then [Log Debug] else []) @ [Log Debug]) @ es)"
    using t r c by simp
  have q': "queried (new_events s (snd r)) = key # takeWhile (\<lambda>k. \<not> accepts s k word) others
                           @ take 1 (dropWhile (\<lambda>k. \<not> accepts s k word) others)"
    unfolding new_events_append[OF t'] using q by (simp add: queried_append acc)
  have np: "\<not> accepts s key word" using False own by (simp add: accepts_def primary_def)
  have "(\<exists>k\<in>set others. accepts s k word) = (\<exists>k\<in>set (object_keys (spellCheckerTable s)). accepts s k word)"
    using np by (auto simp: others_def)
  with False r c q' show ?thesis by (simp add: acc)
qed

subsection \<open>The callback stays attached\<close>

lemma unloadDictionary_other_frame:
  assumes "currentSpellCheckerKey s \<noteq> Some k"
  shows "webFrameProvider (snd (unloadDictionary e s k)) = webFrameProvider s"
    and "currentSpellCheckerKey (snd (unloadDictionary e s k)) = currentSpellCheckerKey s"
    and "currentSpellCheckerStartTime (snd (unloadDictionary e s k)) = currentSpellCheckerStartTime s"
  using assms
  by (auto simp: unloadDictionary_def clearSelection_def Let_def split: property.splits)

lemma registered_load:
  "registered s \<subseteq> registered (snd (loadDictionary e s key dic aff))"
proof
  fix k assume "k \<in> registered s"
  then obtain c where "js_get (spellCheckerTable s) k = Own c" by (auto simp: registered_iff)
  from js_get_load_other[OF this] show "k \<in> registered (snd (loadDictionary e s key dic aff))"
    by (auto simp: registered_iff)
qed

lemma attached_exec:
  assumes a: "attached key checkAll s" and k: "keeps_callback key call"
  shows "attached key checkAll (exec e s call)"
proof (cases call)
  case Initialize
  with a initialize_frame[of s] show ?thesis by (simp add: exec_def attached_def registered_def)
next
  case (SetVerboseLog v)
  with a show ?thesis by (simp add: exec_def attached_def set_verboseLog_def registered_def)
next
  case (LoadDictionary k' dic aff)
  with a loadDictionary_frame[of e s k' dic aff] registered_load[of s e k' dic aff]
  show ?thesis by (auto simp: exec_def attached_def)
next
  case (UnloadDictionary k')
  with k have ne: "key \<noteq> k'" by (simp add: keeps_callback_def)
  with a have "currentSpellCheckerKey s \<noteq> Some k'" by (simp add: attached_def)
  note f = unloadDictionary_other_frame[OF this, of e]
  from a obtain c where "js_get (spellCheckerTable s) key = Own c"
    by (auto simp: attached_def registered_iff)
  with js_get_unload_other[OF ne, of e s]
  have "key \<in> registered (snd (unloadDictionary e s k'))" by (auto simp: registered_iff)
  with a f UnloadDictionary show ?thesis by (simp add: exec_def attached_def)
next
  case (SwitchDictionary k' c n1 n2)
  with k show ?thesis by (simp add: keeps_callback_def)
next
  case (GetSuggestion w)
  with a getSuggestion_frame[of s w] show ?thesis by (simp add: exec_def attached_def registered_def)
next
  case (SpellCheck w)
  from a have "webFrameProvider s = Some (key, Provider key checkAll)" by (simp add: attached_def)
  with a SpellCheck invoke_frame[of s "Provider key checkAll" w] show ?thesis
    by (simp add: exec_def attached_def registered_def)
qed

lemma attached_run:
  assumes "attached key checkAll s" and "\<forall>call\<in>set cs. keeps_callback key call"
  shows "attached key checkAll (run e s cs)"
  using assms
  by (induction cs arbitrary: s) (simp_all add: run_def attached_exec)

lemma attached_switch:
  assumes r: "renderer e" and own: "js_get (spellCheckerTable s) key = Own c"
    and sw: "fst (switchDictionary e s key checkAll now1 now2) = Return ()"
  shows "attached key checkAll (snd (switchDictionary e s key checkAll now1 now2))"
proof -
  from switchDictionary_entries[OF own, of e key checkAll now1 now2]
  have "key \<in> registered (snd (switchDictionary e s key checkAll now1 now2))"
    by (auto simp: registered_iff split: if_splits)
  with switchDictionary_Return(1,3)[OF sw] r show ?thesis by (simp add: attached_def)
qed

lemma set_takeWhile_first: "set (takeWhile P xs @ take n (dropWhile P xs)) \<subseteq> set xs"
proof -
  have "set (takeWhile P xs) \<subseteq> set xs" by (auto dest: set_takeWhileD)
  moreover have "set (take n (dropWhile P xs)) \<subseteq> set (dropWhile P xs)"
    by (rule set_take_subset)
  moreover have "set (dropWhile P xs) \<subseteq> set xs" by (auto dest: set_dropWhileD)
  ultimately show ?thesis by auto
qed

subsection \<open>The operations on keys that are registered or undefined\<close>

lemma switchDictionary_unregistered:
  assumes "key \<notin> registered s" and "key \<notin> set object_prototype_keys"
  shows "switchDictionary e s key checkAll now1 now2 = (Throw (NotAvailable key), s)"
  using assms by (simp add: switchDictionary_not_available js_get_Undefined_iff registered_def)

lemma getSuggestion_empty:
  assumes "currentSpellCheckerKey s = None \<or> currentSpellCheckerKey s = Some []
           \<or> (\<exists>k. currentSpellCheckerKey s = Some k \<and> js_get (spellCheckerTable s) k = Undefined)"
  shows "fst (getSuggestion s text) = Return []"
  using assms by (auto simp: getSuggestion_def)

lemma getSuggestion_selected:
  assumes "currentSpellCheckerKey s = Some k" and "k \<noteq> []"
    and "js_get (spellCheckerTable s) k = Own checker"
  shows "fst (getSuggestion s text) = Return (suggest (spellChecker checker) text)"
  using assms by (simp add: getSuggestion_def Let_def)

lemma unloadDictionary_absent:
  assumes "key = [] \<or> js_get (spellCheckerTable s) key = Undefined"
  shows "unloadDictionary e s key = (Return (), log Info s)"
  using assms by (auto simp: unloadDictionary_def)

lemma unloadDictionary_selected:
  assumes "js_get (spellCheckerTable s) key = Own dict" and "key \<noteq> []"
    and "currentSpellCheckerKey s = Some key"
  shows "unloadDictionary e s key =
     (Return (),
      log Info
        ((run_dispose e
            (setProvider e
               (log Warn (s\<lparr>currentSpellCheckerKey := None, currentSpellCheckerStartTime := None\<rparr>))
               key AlwaysTrue)
            (dispose dict))
         \<lparr>spellCheckerTable := js_delete (spellCheckerTable s) key\<rparr>))"
  using assms by (simp add: unloadDictionary_def clearSelection_def Let_def)

lemma unloadDictionary_not_selected:
  assumes "js_get (spellCheckerTable s) key = Own dict" and "key \<noteq> []"
    and "currentSpellCheckerKey s \<noteq> Some key"
  shows "unloadDictionary e s key =
     (Return (),
      log Info
        ((run_dispose e s (dispose dict))
         \<lparr>spellCheckerTable := js_delete (spellCheckerTable s) key\<rparr>))"
  using assms by (simp add: unloadDictionary_def clearSelection_def Let_def)

subsection \<open>The example states\<close>

lemma example_paths:
  "dirname example_env ''/dict/en-US.dic'' = ''/dict''"
  "dirname example_env ''/dict/en-US.aff'' = ''/dict''"
  "dirname example_env ''/dict/en-GB.dic'' = ''/dict''"
  "dirname example_env ''/dict/en-GB.aff'' = ''/dict''"
  "getMountedPath example_env ''/dict/en-US.dic'' = ''/vfs/dict/en-US.dic''"
  "getMountedPath example_env ''/dict/en-US.aff'' = ''/vfs/dict/en-US.aff''"
  "getMountedPath example_env ''/dict/en-GB.dic'' = ''/vfs/dict/en-GB.dic''"
  "getMountedPath example_env ''/dict/en-GB.aff'' = ''/vfs/dict/en-GB.aff''"
  "dirname example_env ''/vfs/dict/en-US.dic'' = ''/vfs/dict''"
  "dirname example_env ''/vfs/dict/en-US.aff'' = ''/vfs/dict''"
  "dirname example_env ''/vfs/dict/en-GB.dic'' = ''/vfs/dict''"
  "dirname example_env ''/vfs/dict/en-GB.aff'' = ''/vfs/dict''"
  by (simp_all add: example_env_def example_dirname_def example_basename_def getMountedPath_def)

lemma example_loaded_table:
  "spellCheckerTable example_loaded = [(''en-us'', example_us), (''en-gb'', example_gb)]"
  by (simp add: example_loaded_def example_calls_def run_def exec_def initialize_def initial_def
      loadDictionary_def js_get_def object_prototype_keys_def mountFileDictionary_def
      assignSpellchecker_def increaseRefCount_def js_set_def Let_def example_paths
      example_us_def example_gb_def)

lemma example_loaded_fields:
  "hunspellFactory example_loaded = True"
  "currentSpellCheckerKey example_loaded = None"
  "currentSpellCheckerStartTime example_loaded = None"
  "webFrameProvider example_loaded = None"
  "verboseLog example_loaded = False"
  "fileMountRefCount example_loaded = [(''/vfs/dict'', Num 4)]"
  by (simp_all add: example_loaded_def example_calls_def run_def exec_def initialize_def initial_def
      loadDictionary_def js_get_def object_prototype_keys_def mountFileDictionary_def
      assignSpellchecker_def increaseRefCount_def js_set_def Let_def example_paths)

lemma example_loaded_trace:
  "trace example_loaded = 
     [Log Info, LoadModule, Log Info,
      MountDirectory ''/dict'', MountDirectory ''/dict'',
      Create ''/vfs/dict/en-US.aff'' ''/vfs/dict/en-US.dic'', Log Debug, Log Debug, Log Info,
      MountDirectory ''/dict'', MountDirectory ''/dict'',
      Create ''/vfs/dict/en-GB.aff'' ''/vfs/dict/en-GB.dic'', Log Debug, Log Debug, Log Info]"
  by (simp add: example_loaded_def example_calls_def run_def exec_def initialize_def initial_def
      loadDictionary_def js_get_def object_prototype_keys_def mountFileDictionary_def
      assignSpellchecker_def increaseRefCount_def js_set_def Let_def example_paths)

lemma example_keys:
  "object_keys (spellCheckerTable example_loaded) = [''en-us'', ''en-gb'']"
  by (simp add: example_loaded_table object_keys_def object_entries_def is_array_index_def
      is_digit_def)

lemma example_accepts:
  "accepts example_loaded ''en-gb'' ''colour''"
  "\<not> accepts example_loaded ''en-gb'' ''colr''"
  "\<not> spell (spellChecker example_us) ''colour''"
  "\<not> spell (spellChecker example_us) ''colr''"
  by (simp_all add: accepts_def example_loaded_table js_get_def example_gb_def example_us_def
      example_env_def example_words_def)

lemma example_dirname_absolute:
  "example_dirname (CHR ''/'' # q) \<noteq> [] \<and> hd (example_dirname (CHR ''/'' # q)) = CHR ''/''"
proof -
  let ?P = "\<lambda>c. c \<noteq> CHR ''/''"
  have "dropWhile ?P (rev q @ [CHR ''/'']) = [CHR ''/'']
      \<or> (\<exists>ys. dropWhile ?P (rev q @ [CHR ''/'']) = ys @ [CHR ''/''] \<and> ys \<noteq> [])"
    by (cases "\<forall>x\<in>set (rev q). ?P x") (auto simp: dropWhile_append dropWhile_append1 dropWhile_eq_Nil_conv)
  then show ?thesis
  proof
    assume "dropWhile ?P (rev q @ [CHR ''/'']) = [CHR ''/'']"
    then show ?thesis by (simp add: example_dirname_def)
  next
    assume "\<exists>ys. dropWhile ?P (rev q @ [CHR ''/'']) = ys @ [CHR ''/''] \<and> ys \<noteq> []"
    then obtain ys where ys: "dropWhile ?P (rev q @ [CHR ''/'']) = ys @ [CHR ''/'']" "ys \<noteq> []"
      by blast
    then have "rev (drop 1 (ys @ [CHR ''/''])) = CHR ''/'' # rev (drop 1 ys)"
      by (cases ys) auto
    with ys show ?thesis by (simp add: example_dirname_def)
  qed
qed

lemma mounts_ok_example: "mounts_ok example_env"
proof -
  have "dirname example_env (getMountedPath example_env f) \<notin> set object_prototype_keys" for f
  proof -
    have "\<exists>q. getMountedPath example_env f = CHR ''/'' # q"
      by (simp add: getMountedPath_def example_env_def)
    then obtain q where "getMountedPath example_env f = CHR ''/'' # q" ..
    with example_dirname_absolute[of q]
    have "dirname example_env (getMountedPath example_env f) \<noteq> []"
      and "hd (dirname example_env (getMountedPath example_env f)) = CHR ''/''"
      by (simp_all add: example_env_def)
    then show ?thesis by (auto simp: object_prototype_keys_def)
  qed
  then show ?thesis by (simp add: mounts_ok_def)
qed

lemma example_unloaded_eq:
  "example_unloaded = snd (unloadDictionary example_env example_loaded ''en-us'')"
  by (simp add: example_unloaded_def example_loaded_def run_def exec_def)

lemmas example_eval =
  unloadDictionary_def clearSelection_def run_dispose_def unmountFile_def unmountPath_def
  decreaseRefCount_def js_get_def js_set_def js_delete_def Let_def object_prototype_keys_def
  example_loaded_table example_loaded_fields example_us_def example_gb_def example_paths

lemma example_unloaded_fields:
  "spellCheckerTable example_unloaded = [(''en-gb'', example_gb)]"
  "fileMountRefCount example_unloaded = [(''/vfs/dict'', Num 2)]"
  "currentSpellCheckerKey example_unloaded = None"
  "new_events example_loaded example_unloaded =
     [Log Debug, Log Debug,
      DisposeHunspell ''/vfs/dict/en-US.aff'' ''/vfs/dict/en-US.dic'', Log Info]"
  by (simp_all add: example_unloaded_eq new_events_def example_eval)

lemma example_unloaded_gb:
  "fileMountRefCount (snd (unloadDictionary example_env example_unloaded ''en-gb'')) = []"
  "new_events example_unloaded (snd (unloadDictionary example_env example_unloaded ''en-gb'')) =
     [Log Debug, Log Debug, Unmount ''/vfs/dict'',
      DisposeHunspell ''/vfs/dict/en-GB.aff'' ''/vfs/dict/en-GB.dic'', Log Info]"
  by (simp_all add: new_events_def unloadDictionary_def clearSelection_def run_dispose_def
      unmountFile_def unmountPath_def decreaseRefCount_def js_get_def js_set_def js_delete_def
      Let_def object_prototype_keys_def example_unloaded_fields example_gb_def example_paths)

lemma example_selected_fields:
  "spellCheckerTable example_selected = [(''en-us'', example_us), (''en-gb'', example_gb)]"
  "currentSpellCheckerKey example_selected = Some ''en-gb''"
  "currentSpellCheckerStartTime example_selected = Some 100"
  "webFrameProvider example_selected = Some (''en-gb'', Provider ''en-gb'' False)"
  "hunspellFactory example_selected = True"
  "fileMountRefCount example_selected = [(''/vfs/dict'', Num 4)]"
  "verboseLog example_selected = False"
  by (simp_all add: example_selected_def run_def exec_def switchDictionary_def addUptime_def
      attach_def setProvider_def js_get_def js_set_def Let_def object_prototype_keys_def
      example_loaded_table example_loaded_fields example_gb_def example_us_def example_env_def)

lemma example_switched_fields:
  "spellCheckerTable example_switched =
     [(''en-us'', example_us), (''en-gb'', example_gb\<lparr>uptime := 250\<rparr>)]"
  "currentSpellCheckerKey example_switched = Some ''en-us''"
  "currentSpellCheckerStartTime example_switched = Some 400"
  "webFrameProvider example_switched = Some (''en-us'', Provider ''en-us'' False)"
  "hunspellFactory example_switched = True"
  "fileMountRefCount example_switched = [(''/vfs/dict'', Num 4)]"
  "verboseLog example_switched = False"
  by (simp_all add: example_switched_def exec_def switchDictionary_def addUptime_def
      attach_def setProvider_def js_get_def js_set_def Let_def object_prototype_keys_def
      example_selected_fields example_gb_def example_us_def example_env_def to_double_exact)

lemma example_renderer: "renderer example_env"
  by (simp add: example_env_def)

lemma example_start_fields:
  "spellCheckerTable example_start = [(''en-us'', example_us)]"
  "webFrameProvider example_start = None"
  "currentSpellCheckerKey example_start = None"
  "currentSpellCheckerStartTime example_start = None"
  "hunspellFactory example_start = True"
  "fileMountRefCount example_start = [(''/vfs/dict'', Num 2)]"
  "verboseLog example_start = False"
  by (simp_all add: example_start_def run_def exec_def initialize_def initial_def
      loadDictionary_def js_get_def object_prototype_keys_def mountFileDictionary_def
      assignSpellchecker_def increaseRefCount_def js_set_def Let_def example_paths example_us_def)

lemma example_attached_fields:
  "spellCheckerTable example_attached = [(''en-us'', example_us)]"
  "webFrameProvider example_attached = Some (''en-us'', Provider ''en-us'' True)"
  "currentSpellCheckerKey example_attached = Some ''en-us''"
  "hunspellFactory example_attached = True"
  "fileMountRefCount example_attached = [(''/vfs/dict'', Num 2)]"
  "verboseLog example_attached = False"
  by (simp_all add: example_attached_def switchDictionary_def addUptime_def attach_def
      setProvider_def js_get_def example_start_fields example_renderer)

lemma example_later_fields:
  "spellCheckerTable example_later = [(''en-us'', example_us), (''en-gb'', example_gb)]"
  "webFrameProvider example_later = Some (''en-us'', Provider ''en-us'' True)"
  "verboseLog example_later = False"
  by (simp_all add: example_later_def example_attached_fields run_def exec_def loadDictionary_def
      js_get_def object_prototype_keys_def mountFileDictionary_def assignSpellchecker_def
      increaseRefCount_def js_set_def Let_def example_paths example_us_def example_gb_def)

lemma example_latest_fields:
  "spellCheckerTable example_latest = [(''en-us'', example_us)]"
  "webFrameProvider example_latest = Some (''en-us'', Provider ''en-us'' True)"
  "verboseLog example_latest = False"
  by (simp_all add: example_latest_def example_attached_fields run_def exec_def loadDictionary_def
      js_get_def object_prototype_keys_def mountFileDictionary_def assignSpellchecker_def
      increaseRefCount_def js_set_def Let_def example_paths example_us_def example_gb_def
      unloadDictionary_def clearSelection_def run_dispose_def unmountFile_def unmountPath_def
      decreaseRefCount_def js_delete_def)

lemma example_misselected_fields:
  "spellCheckerTable example_misselected = [(''en-us'', example_us), (''en-gb'', example_gb)]"
  "webFrameProvider example_misselected = Some (''constructor'', Provider ''constructor'' False)"
  "currentSpellCheckerKey example_misselected = Some ''constructor''"
  by (simp_all add: example_misselected_def switchDictionary_def addUptime_def attach_def
      setProvider_def js_get_def object_prototype_keys_def example_loaded_table
      example_loaded_fields example_renderer)

lemma example_inherited_fields:
  "spellCheckerTable example_inherited = [(''en-us'', example_us), (''en-gb'', example_gb)]"
  "webFrameProvider example_inherited = Some (''constructor'', Provider ''constructor'' True)"
  "currentSpellCheckerKey example_inherited = Some ''constructor''"
  by (simp_all add: example_inherited_def switchDictionary_def addUptime_def attach_def
      setProvider_def js_get_def object_prototype_keys_def example_loaded_table
      example_loaded_fields example_renderer)

lemma example_inherited_start_fields:
  "spellCheckerTable example_inherited_start = [(''en-us'', example_us)]"
  "webFrameProvider example_inherited_start
     = Some (''constructor'', Provider ''constructor'' True)"
  "currentSpellCheckerKey example_inherited_start = Some ''constructor''"
  "hunspellFactory example_inherited_start = True"
  "fileMountRefCount example_inherited_start = [(''/vfs/dict'', Num 2)]"
  "verboseLog example_inherited_start = False"
  by (simp_all add: example_inherited_start_def switchDictionary_def addUptime_def attach_def
      setProvider_def js_get_def object_prototype_keys_def example_start_fields
      example_renderer)

lemma example_inherited_later_fields:
  "spellCheckerTable example_inherited_later
     = [(''en-us'', example_us), (''en-gb'', example_gb)]"
  "webFrameProvider example_inherited_later
     = Some (''constructor'', Provider ''constructor'' True)"
  by (simp_all add: example_inherited_later_def example_inherited_start_fields run_def exec_def
      loadDictionary_def js_get_def object_prototype_keys_def mountFileDictionary_def
      assignSpellchecker_def increaseRefCount_def js_set_def Let_def example_paths
      example_us_def example_gb_def)

lemma invoke_inherited:
  assumes "js_get (spellCheckerTable s) key = Inherited"
  shows "invoke s (Provider key checkAllDictionaries) text = (Throw TypeError, s)"
  using assms by (simp add: invoke_def provider_def)

lemma new_events_same: "new_events s s = []"
  by (simp add: new_events_def)

section \<open>The callback of a registered key\<close>

text \<open>
  \<open>switchDictionary(key, checkAllDictionaries)\<close> hands the host the closure that \<open>attach\<close>
  builds from its two arguments. For a key that has an entry in the table the closure asks
  the primary dictionary first. When \<open>checkAllDictionaries\<close> is false, or no other key is
  registered, or the primary accepts the word, it returns the primary's verdict and asks no
  other dictionary. Otherwise it asks the other registered dictionaries in the order of
  \<^verbatim>\<open>Object.keys\<close>, stops at the first that accepts the word and returns true, and returns
  false when none does.
\<close>

lemma registered_callback_policy:
  fixes e :: env and s :: state and key word :: string and checkAllDictionaries :: bool
    and c :: SpellChecker
  assumes r: "renderer e"
    and own: "js_get (spellCheckerTable s) key = Own c"
    and sw: "fst (switchDictionary e s key checkAllDictionaries now1 now2) = Return ()"
  defines "s1 \<equiv> snd (switchDictionary e s key checkAllDictionaries now1 now2)"
  defines "others \<equiv> filter (\<lambda>x. x \<noteq> key) (object_keys (spellCheckerTable s1))"
  defines "primary \<equiv> accepts s1 key word"
  defines "out \<equiv> invoke s1 (Provider key checkAllDictionaries) word"
  shows "webFrameProvider s1 = Some (key, Provider key checkAllDictionaries)
       \<and> fst out = Return (if \<not> checkAllDictionaries \<or> others = [] \<or> primary then primary
                           else (\<exists>k\<in>set others. accepts s1 k word))
       \<and> queried (new_events s1 (snd out)) =
           key # (if \<not> checkAllDictionaries \<or> others = [] \<or> primary then []
                  else takeWhile (\<lambda>k. \<not> accepts s1 k word) others
                       @ take 1 (dropWhile (\<lambda>k. \<not> accepts s1 k word) others))
       \<and> (checkAllDictionaries \<longrightarrow>
            fst out = Return (\<exists>k\<in>registered s1. accepts s1 k word))"
proof -
  have a: "attached key checkAllDictionaries s1"
    unfolding s1_def by (rule attached_switch[OF r own sw])
  then obtain c1 where own1: "js_get (spellCheckerTable s1) key = Own c1"
    by (auto simp: attached_def registered_iff)
  have p: "primary = spell (spellChecker c1) word"
    by (simp add: primary_def accepts_def own1)
  have reg: "registered s1 = set (object_keys (spellCheckerTable s1))"
    by (simp add: registered_def set_object_keys)
  have o: "out = provider s1 key checkAllDictionaries word" by (simp add: out_def invoke_def)
  from a have w: "webFrameProvider s1 = Some (key, Provider key checkAllDictionaries)"
    by (simp add: attached_def)
  from provider_spec[OF own1, of checkAllDictionaries word] w show ?thesis
    unfolding o p others_def reg by simp
qed

text \<open>
  The closure reads the table when it is invoked. After calls that neither switch again nor
  unload \<open>key\<close> the host still holds the callback of the one switch, and the callback reports
  a word correct exactly when some dictionary registered at that moment accepts it, asks no
  dictionary that is not registered at that moment, and when none accepts the word it has
  asked the primary and then every other key registered at that moment.
\<close>

lemma registered_callback_reads_table:
  fixes e :: env and s :: state and key word :: string and cs :: "api_call list"
    and c :: SpellChecker
  assumes r: "renderer e"
    and own: "js_get (spellCheckerTable s) key = Own c"
    and sw: "fst (switchDictionary e s key True now1 now2) = Return ()"
    and keep: "\<forall>call\<in>set cs. keeps_callback key call"
  defines "s2 \<equiv> run e (snd (switchDictionary e s key True now1 now2)) cs"
  defines "out \<equiv> invoke s2 (Provider key True) word"
  shows "webFrameProvider s2 = Some (key, Provider key True)
       \<and> fst out = Return (\<exists>k\<in>registered s2. accepts s2 k word)
       \<and> set (queried (new_events s2 (snd out))) \<subseteq> registered s2
       \<and> ((\<forall>k\<in>registered s2. \<not> accepts s2 k word) \<longrightarrow>
            queried (new_events s2 (snd out))
            = key # filter (\<lambda>x. x \<noteq> key) (object_keys (spellCheckerTable s2)))"
proof -
  have a: "attached key True s2"
    unfolding s2_def by (rule attached_run[OF attached_switch[OF r own sw] keep])
  then obtain c2 where own2: "js_get (spellCheckerTable s2) key = Own c2"
    by (auto simp: attached_def registered_iff)
  let ?others = "filter (\<lambda>x. x \<noteq> key) (object_keys (spellCheckerTable s2))"
  let ?P = "\<lambda>k. \<not> accepts s2 k word"
  have reg: "registered s2 = set (object_keys (spellCheckerTable s2))"
    by (simp add: registered_def set_object_keys)
  note p = provider_spec[OF own2, of True word]
  have o: "out = provider s2 key True word" by (simp add: out_def invoke_def)
  have res: "fst out = Return (\<exists>k\<in>registered s2. accepts s2 k word)"
    using p[THEN conjunct2, THEN conjunct2] by (simp add: o reg)
  have q: "queried (new_events s2 (snd out)) =
      key # (if ?others = [] \<or> spell (spellChecker c2) word then []
             else takeWhile ?P ?others @ take 1 (dropWhile ?P ?others))"
    using p[THEN conjunct2, THEN conjunct1] by (simp add: o)
  have keyreg: "key \<in> registered s2" using a by (simp add: attached_def)
  have sub: "set (queried (new_events s2 (snd out))) \<subseteq> registered s2"
  proof -
    have "set (takeWhile ?P ?others @ take 1 (dropWhile ?P ?others)) \<subseteq> set ?others"
      by (rule set_takeWhile_first)
    also have "\<dots> \<subseteq> registered s2" by (auto simp: reg)
    finally show ?thesis using keyreg by (auto simp: q)
  qed
  have full: "queried (new_events s2 (snd out)) = key # ?others"
    if none: "\<forall>k\<in>registered s2. \<not> accepts s2 k word"
  proof -
    have nosp: "\<not> spell (spellChecker c2) word"
      using none keyreg own2 by (auto simp: accepts_def)
    have all: "\<forall>k\<in>set ?others. ?P k" using none by (auto simp: reg)
    have tw: "takeWhile ?P ?others = ?others" using all by (simp add: takeWhile_eq_all_conv)
    have dw: "dropWhile ?P ?others = []" using all by (simp add: dropWhile_eq_Nil_conv)
    show ?thesis unfolding q tw dw using nosp by simp
  qed
  from a res sub full show ?thesis by (simp add: attached_def)
qed

lemma registered_callback_examples:
  "webFrameProvider example_later = Some (''en-us'', Provider ''en-us'' True)
   \<and> fst (invoke example_later (Provider ''en-us'' True) ''colour'') = Return True
   \<and> queried (new_events example_later (snd (invoke example_later (Provider ''en-us'' True) ''colr'')))
       = [''en-us'', ''en-gb'']
   \<and> webFrameProvider example_latest = Some (''en-us'', Provider ''en-us'' True)
   \<and> fst (invoke example_latest (Provider ''en-us'' True) ''colour'') = Return False
   \<and> queried (new_events example_latest (snd (invoke example_latest (Provider ''en-us'' True) ''colour'')))
       = [''en-us'']"
proof -
  have own: "js_get (spellCheckerTable example_start) ''en-us'' = Own example_us"
    by (simp add: example_start_fields js_get_def)
  have sw: "fst (switchDictionary example_env example_start ''en-us'' True 0 0) = Return ()"
    by (simp add: switchDictionary_def addUptime_def js_get_def example_start_fields attach_def)
  have k1: "\<forall>call\<in>set [LoadDictionary ''en-gb'' (Path ''/dict/en-GB.dic'') (Path ''/dict/en-GB.aff'')].
      keeps_callback ''en-us'' call"
    by (simp add: keeps_callback_def)
  have k2: "\<forall>call\<in>set [LoadDictionary ''en-gb'' (Path ''/dict/en-GB.dic'') (Path ''/dict/en-GB.aff''),
        UnloadDictionary ''en-gb'']. keeps_callback ''en-us'' call"
    by (simp add: keeps_callback_def)
  have acc: "accepts example_later ''en-gb'' ''colour''" "\<not> accepts example_later ''en-us'' ''colour''"
    "\<not> accepts example_later ''en-gb'' ''colr''" "\<not> accepts example_later ''en-us'' ''colr''"
    "\<not> accepts example_latest ''en-us'' ''colour''"
    by (simp_all add: accepts_def js_get_def example_later_fields example_latest_fields
        example_us_def example_gb_def example_env_def example_words_def)
  have reg: "registered example_later = {''en-us'', ''en-gb''}" "registered example_latest = {''en-us''}"
    by (simp_all add: registered_def example_later_fields example_latest_fields)
  have keys: "object_keys (spellCheckerTable example_later) = [''en-us'', ''en-gb'']"
    "object_keys (spellCheckerTable example_latest) = [''en-us'']"
    by (simp_all add: object_keys_def object_entries_def is_array_index_def is_digit_def
        example_later_fields example_latest_fields)
  note f = example_attached_def[symmetric] example_later_def[symmetric]
    example_latest_def[symmetric]
  from registered_callback_reads_table[OF example_renderer own sw k1, of "''colour''"]
  have 1: "webFrameProvider example_later = Some (''en-us'', Provider ''en-us'' True)"
    and 2: "fst (invoke example_later (Provider ''en-us'' True) ''colour'') = Return True"
    by (simp_all add: f reg acc)
  from registered_callback_reads_table[OF example_renderer own sw k1, of "''colr''"]
  have 3: "queried (new_events example_later
              (snd (invoke example_later (Provider ''en-us'' True) ''colr'')))
       = [''en-us'', ''en-gb'']"
    by (simp add: f reg acc keys)
  from registered_callback_reads_table[OF example_renderer own sw k2, of "''colour''"]
  have 4: "webFrameProvider example_latest = Some (''en-us'', Provider ''en-us'' True)"
    and 5: "fst (invoke example_latest (Provider ''en-us'' True) ''colour'') = Return False"
    and 6: "queried (new_events example_latest
              (snd (invoke example_latest (Provider ''en-us'' True) ''colour'')))
       = [''en-us'']"
    by (simp_all add: f reg acc keys)
  from 1 2 3 4 5 6 show ?thesis by simp
qed

section \<open>Unmounting a directory\<close>

text \<open>
  Claim C2. Take any sequence of calls from the initial state, with an engine whose mounted
  paths never lie in a directory named like a member of \<^verbatim>\<open>Object.prototype\<close>, and unload a
  dictionary that was loaded from files. Before and after the call the count kept for a
  directory is the number of mounted files of loaded dictionaries that lie in it. The call
  unmounts a directory exactly when it is the directory of one of the two files and its
  count has reached zero, and it unmounts it once; a directory that still holds a file of a
  dictionary that stays loaded is not unmounted. With two dictionaries loaded from one
  directory, unloading the first unmounts nothing and leaves the count at two, and unloading
  the second unmounts the directory.
\<close>

theorem unload_unmounts_at_zero:
  fixes e :: env and cs :: "api_call list" and key a d :: string and c :: SpellChecker
  assumes ok: "mounts_ok e"
    and own: "js_get (spellCheckerTable (run e initial cs)) key = Own c"
    and f: "dispose c = UnmountFile a d"
  defines "s \<equiv> run e initial cs"
  defines "s' \<equiv> snd (unloadDictionary e s key)"
  shows "fst (unloadDictionary e s key) = Return ()
       \<and> spellCheckerTable s' = js_delete (spellCheckerTable s) key
       \<and> (\<forall>x. count_of (fileMountRefCount s) x = int (refs e (spellCheckerTable s) x))
       \<and> (\<forall>x. count_of (fileMountRefCount s') x = int (refs e (spellCheckerTable s') x))
       \<and> set (unmounted (new_events s s'))
            = {x. (x = dirname e a \<or> x = dirname e d) \<and> count_of (fileMountRefCount s') x = 0}
       \<and> distinct (unmounted (new_events s s'))
       \<and> (\<forall>x. 0 < refs e (spellCheckerTable s') x \<longrightarrow> x \<notin> set (unmounted (new_events s s')))"
proof -
  have c: "consistent e s" unfolding s_def by (rule consistent_reachable[OF ok])
  have own': "js_get (spellCheckerTable s) key = Own c" using own by (simp add: s_def)
  note u = unloadDictionary_file[OF c own' f]
  have t': "spellCheckerTable s' = js_delete (spellCheckerTable s) key"
    using u(2) by (simp add: s'_def)
  have m: "matches (fileMountRefCount s) (refs e (spellCheckerTable s))"
    using c by (simp add: consistent_def)
  have m': "matches (fileMountRefCount s') (refs e (spellCheckerTable s'))"
    using u(3) by (simp add: s'_def u(2))
  have cnt: "count_of (fileMountRefCount s) x = int (refs e (spellCheckerTable s) x)" for x
    by (rule matches_count_of[OF m])
  have cnt': "count_of (fileMountRefCount s') x = int (refs e (spellCheckerTable s') x)" for x
    by (rule matches_count_of[OF m'])
  have un: "unmounted (new_events s s') =
      filter (\<lambda>x. refs e (spellCheckerTable s') x = 0)
        (if dirname e a = dirname e d then [dirname e d] else [dirname e a, dirname e d])"
    using u(4) by (simp add: s'_def u(2))
  have "set (unmounted (new_events s s'))
            = {x. (x = dirname e a \<or> x = dirname e d) \<and> count_of (fileMountRefCount s') x = 0}"
    by (auto simp: un cnt')
  moreover have "distinct (unmounted (new_events s s'))" by (simp add: un)
  moreover have "\<forall>x. 0 < refs e (spellCheckerTable s') x \<longrightarrow> x \<notin> set (unmounted (new_events s s'))"
    by (auto simp: un)
  ultimately show ?thesis using u(1) t' cnt cnt' by (simp add: s'_def)
qed

theorem unload_unmounts_at_zero_witness:
  "unmounted (new_events example_loaded
       (snd (unloadDictionary example_env example_loaded ''en-us''))) = []
   \<and> count_of (fileMountRefCount (snd (unloadDictionary example_env example_loaded ''en-us'')))
        ''/vfs/dict'' = 2
   \<and> set (unmounted (new_events example_unloaded
       (snd (unloadDictionary example_env example_unloaded ''en-gb'')))) = {''/vfs/dict''}
   \<and> count_of (fileMountRefCount (snd (unloadDictionary example_env example_unloaded ''en-gb'')))
        ''/vfs/dict'' = 0"
proof -
  have own1: "js_get (spellCheckerTable (run example_env initial example_calls)) ''en-us''
      = Own example_us"
    using example_loaded_table by (simp add: example_loaded_def js_get_def)
  have f1: "dispose example_us = UnmountFile ''/vfs/dict/en-US.aff'' ''/vfs/dict/en-US.dic''"
    by (simp add: example_us_def)
  have own2: "js_get (spellCheckerTable
      (run example_env initial (example_calls @ [UnloadDictionary ''en-us'']))) ''en-gb''
      = Own example_gb"
    using example_unloaded_fields(1) by (simp add: example_unloaded_def js_get_def)
  have f2: "dispose example_gb = UnmountFile ''/vfs/dict/en-GB.aff'' ''/vfs/dict/en-GB.dic''"
    by (simp add: example_gb_def)
  have c1: "count_of (fileMountRefCount (snd (unloadDictionary example_env example_loaded ''en-us'')))
        ''/vfs/dict'' = 2"
    using example_unloaded_fields(2) by (simp add: example_unloaded_eq count_of_def js_get_def)
  have c2: "count_of (fileMountRefCount (snd (unloadDictionary example_env example_unloaded ''en-gb'')))
        ''/vfs/dict'' = 0"
    by (simp add: example_unloaded_gb count_of_def js_get_def object_prototype_keys_def)
  let ?D = "''/vfs/dict''"
  from unload_unmounts_at_zero[OF mounts_ok_example own1 f1]
  have "set (unmounted (new_events example_loaded
           (snd (unloadDictionary example_env example_loaded ''en-us''))))
        = {x. x = ?D \<and> count_of (fileMountRefCount
               (snd (unloadDictionary example_env example_loaded ''en-us''))) x = 0}"
    by (simp add: example_loaded_def[symmetric] example_paths)
  then have u1: "unmounted (new_events example_loaded
           (snd (unloadDictionary example_env example_loaded ''en-us''))) = []"
    by (simp add: c1 Collect_conv_if)
  from unload_unmounts_at_zero[OF mounts_ok_example own2 f2]
  have "set (unmounted (new_events example_unloaded
           (snd (unloadDictionary example_env example_unloaded ''en-gb''))))
        = {x. x = ?D \<and> count_of (fileMountRefCount
               (snd (unloadDictionary example_env example_unloaded ''en-gb''))) x = 0}"
    by (simp add: example_unloaded_def[symmetric] example_paths)
  then have u2: "set (unmounted (new_events example_unloaded
           (snd (unloadDictionary example_env example_unloaded ''en-gb'')))) = {?D}"
    by (simp add: c2 Collect_conv_if)
  from u1 c1 u2 c2 show ?thesis by simp
qed

section \<open>Loading under an empty or a registered key\<close>

text \<open>
  Claim C3. \<open>loadDictionary\<close> with the empty key or with a key that has an entry in the table
  throws the invalid-key error, whatever the two sources are, and leaves the whole state as it
  was: the dictionary table, the ref-count table and the trace of calls.
\<close>

theorem loadDictionary_invalid_key:
  assumes "key = [] \<or> (\<exists>c. js_get (spellCheckerTable s) key = Own c)"
  shows "loadDictionary e s key dic aff =
           (Throw (InvalidKey (if key \<noteq> [] then ''already registered key'' else ''key is empty'')), s)"
  using assms by (auto simp: loadDictionary_def)

theorem loadDictionary_invalid_key_witness:
  "loadDictionary example_env example_loaded ''en-us'' (Path ''/other/en-US.dic'') (Path ''/other/en-US.aff'')
     = (Throw (InvalidKey ''already registered key''), example_loaded)
   \<and> loadDictionary example_env example_loaded [] (Path ''/other/en-US.dic'') (Path ''/other/en-US.aff'')
     = (Throw (InvalidKey ''key is empty''), example_loaded)"
proof -
  have "js_get (spellCheckerTable example_loaded) ''en-us'' = Own example_us"
    by (simp add: example_loaded_table js_get_def)
  then have 1: "''en-us'' = [] \<or> (\<exists>c. js_get (spellCheckerTable example_loaded) ''en-us'' = Own c)"
    by blast
  have 2: "[] = ([] :: string) \<or> (\<exists>c. js_get (spellCheckerTable example_loaded) [] = Own c)"
    by simp
  show ?thesis
    using loadDictionary_invalid_key[OF 1, of example_env "Path ''/other/en-US.dic''" "Path ''/other/en-US.aff''"]
          loadDictionary_invalid_key[OF 2, of example_env "Path ''/other/en-US.dic''" "Path ''/other/en-US.aff''"]
    by simp
qed

section \<open>Uptime accounting\<close>

text \<open>
  Claim C5, as the code has it. While a dictionary is selected and registered, a
  \<open>switchDictionary\<close> that returns first adds to that entry's uptime the time between the
  start timestamp and the call's first clock reading, changes no other entry, and then
  records the new key and the second clock reading. The difference and the sum are rounded
  as doubles; below \<open>2^53\<close> they are exact. \<open>unloadDictionary\<close> reads no clock (it takes no
  reading as an argument) and adds nothing to any uptime: it changes no entry but the one it
  removes, and when the key is the selected one it returns with the selection cleared, the
  start timestamp reset and the entry removed. So after \<open>switchDictionary('en-us')\<close> and a
  later \<open>switchDictionary('en-gb')\<close> the uptime of \<open>en-us\<close> has grown by the time between the
  second clock reading of the first call and the first clock reading of the second. Every
  uptime in a state that the provider reaches is a double; and over any sequence of calls in
  which no clock reading lies before the start timestamp, the uptime of an entry that holds
  a double and stays loaded never decreases.
\<close>

theorem uptime_accounting:
  "(currentSpellCheckerKey s = Some cur \<and> cur \<noteq> []
      \<and> currentSpellCheckerStartTime s = Some t0
      \<and> js_get (spellCheckerTable s) cur = Own c
      \<and> fst (switchDictionary e s key checkAll now1 now2) = Return ()
     \<longrightarrow> js_get (spellCheckerTable (snd (switchDictionary e s key checkAll now1 now2))) cur
           = Own (c\<lparr>uptime := to_double (uptime c + to_double (now1 - t0))\<rparr>)
         \<and> (\<bar>now1 - t0\<bar> < 2 ^ 53 \<and> \<bar>uptime c + (now1 - t0)\<bar> < 2 ^ 53 \<longrightarrow>
              uptime_of (snd (switchDictionary e s key checkAll now1 now2)) cur
              = uptime c + (now1 - t0))
         \<and> (\<forall>k. k \<noteq> cur \<longrightarrow>
               js_get (spellCheckerTable (snd (switchDictionary e s key checkAll now1 now2))) k
               = js_get (spellCheckerTable s) k)
         \<and> currentSpellCheckerKey (snd (switchDictionary e s key checkAll now1 now2)) = Some key
         \<and> currentSpellCheckerStartTime (snd (switchDictionary e s key checkAll now1 now2))
             = Some now2)
   \<and> (fst (switchDictionary e s k1 ca n1 n2) = Return ()
        \<and> js_get (spellCheckerTable (snd (switchDictionary e s k1 ca n1 n2))) k1 = Own c1
        \<and> fst (switchDictionary e (snd (switchDictionary e s k1 ca n1 n2)) k2 cb n3 n4) = Return ()
     \<longrightarrow> js_get (spellCheckerTable
                 (snd (switchDictionary e (snd (switchDictionary e s k1 ca n1 n2)) k2 cb n3 n4))) k1
           = Own (c1\<lparr>uptime := to_double (uptime c1 + to_double (n3 - n2))\<rparr>))
   \<and> (currentSpellCheckerKey s = Some key \<and> key \<noteq> []
        \<and> js_get (spellCheckerTable s) key = Own dict
     \<longrightarrow> fst (unloadDictionary e s key) = Return ()
         \<and> currentSpellCheckerKey (snd (unloadDictionary e s key)) = None
         \<and> currentSpellCheckerStartTime (snd (unloadDictionary e s key)) = None
         \<and> spellCheckerTable (snd (unloadDictionary e s key))
             = js_delete (spellCheckerTable s) key
         \<and> key \<notin> registered (snd (unloadDictionary e s key)))
   \<and> (\<forall>k. k \<noteq> key \<longrightarrow>
          js_get (spellCheckerTable (snd (unloadDictionary e s key))) k
          = js_get (spellCheckerTable s) k)
   \<and> (js_get (spellCheckerTable (run e initial cs0)) k' = Own c' \<longrightarrow> is_double (uptime c'))
   \<and> (js_get (spellCheckerTable s) k0 = Own c0 \<and> is_double (uptime c0)
        \<and> UnloadDictionary k0 \<notin> set cs \<and> clocks_ok e s cs
     \<longrightarrow> (\<exists>c. js_get (spellCheckerTable (run e s cs)) k0 = Own c \<and> uptime c0 \<le> uptime c))"
proof (intro conjI impI allI)
  assume h: "currentSpellCheckerKey s = Some cur \<and> cur \<noteq> []
      \<and> currentSpellCheckerStartTime s = Some t0
      \<and> js_get (spellCheckerTable s) cur = Own c
      \<and> fst (switchDictionary e s key checkAll now1 now2) = Return ()"
  then have r: "fst (switchDictionary e s key checkAll now1 now2) = Return ()"
    and own: "js_get (spellCheckerTable s) cur = Own c" by simp_all
  note sel = switchDictionary_Return[OF r]
  show new: "js_get (spellCheckerTable (snd (switchDictionary e s key checkAll now1 now2))) cur
           = Own (c\<lparr>uptime := to_double (uptime c + to_double (now1 - t0))\<rparr>)"
    using switchDictionary_entries[OF own, of e key checkAll now1 now2] h sel(4,5) by simp
  show "currentSpellCheckerKey (snd (switchDictionary e s key checkAll now1 now2)) = Some key"
    by (rule sel(1))
  show "currentSpellCheckerStartTime (snd (switchDictionary e s key checkAll now1 now2))
             = Some now2"
    by (rule sel(2))
  {
    assume "\<bar>now1 - t0\<bar> < 2 ^ 53 \<and> \<bar>uptime c + (now1 - t0)\<bar> < 2 ^ 53"
    then have "to_double (uptime c + to_double (now1 - t0)) = uptime c + (now1 - t0)"
      by (simp add: to_double_exact)
    then show "uptime_of (snd (switchDictionary e s key checkAll now1 now2)) cur
              = uptime c + (now1 - t0)"
      by (simp add: uptime_of_def new)
  }
  fix k assume "k \<noteq> cur"
  with h show "js_get (spellCheckerTable (snd (switchDictionary e s key checkAll now1 now2))) k
               = js_get (spellCheckerTable s) k"
    by (simp add: switchDictionary_others)
next
  let ?s1 = "snd (switchDictionary e s k1 ca n1 n2)"
  assume h: "fst (switchDictionary e s k1 ca n1 n2) = Return ()
        \<and> js_get (spellCheckerTable ?s1) k1 = Own c1
        \<and> fst (switchDictionary e ?s1 k2 cb n3 n4) = Return ()"
  then have first: "fst (switchDictionary e s k1 ca n1 n2) = Return ()"
    and own: "js_get (spellCheckerTable ?s1) k1 = Own c1"
    and second: "fst (switchDictionary e ?s1 k2 cb n3 n4) = Return ()" by simp_all
  note sel = switchDictionary_Return[OF first]
  note arg = switchDictionary_Return(4,5)[OF second]
  show "js_get (spellCheckerTable (snd (switchDictionary e ?s1 k2 cb n3 n4))) k1
           = Own (c1\<lparr>uptime := to_double (uptime c1 + to_double (n3 - n2))\<rparr>)"
    using switchDictionary_entries[OF own, of e k2 cb n3 n4] sel(1,2,4) arg by simp
next
  assume h: "currentSpellCheckerKey s = Some key \<and> key \<noteq> []
        \<and> js_get (spellCheckerTable s) key = Own dict"
  then have u: "unloadDictionary e s key =
     (Return (),
      log Info
        ((run_dispose e
            (setProvider e
               (log Warn (s\<lparr>currentSpellCheckerKey := None, currentSpellCheckerStartTime := None\<rparr>))
               key AlwaysTrue)
            (dispose dict))
         \<lparr>spellCheckerTable := js_delete (spellCheckerTable s) key\<rparr>))"
    by (intro unloadDictionary_selected) simp_all
  show "fst (unloadDictionary e s key) = Return ()" by (simp add: u)
  show "currentSpellCheckerKey (snd (unloadDictionary e s key)) = None" by (simp add: u)
  show "currentSpellCheckerStartTime (snd (unloadDictionary e s key)) = None" by (simp add: u)
  show "spellCheckerTable (snd (unloadDictionary e s key)) = js_delete (spellCheckerTable s) key"
    by (simp add: u)
  show "key \<notin> registered (snd (unloadDictionary e s key))"
    by (simp add: u registered_def js_delete_def delete_notin_dom)
next
  fix k assume "k \<noteq> key"
  then show "js_get (spellCheckerTable (snd (unloadDictionary e s key))) k
          = js_get (spellCheckerTable s) k"
    by (rule js_get_unload_other)
next
  assume "js_get (spellCheckerTable (run e initial cs0)) k' = Own c'"
  then show "is_double (uptime c')" by (rule uptime_double_reachable)
next
  assume "js_get (spellCheckerTable s) k0 = Own c0 \<and> is_double (uptime c0)
        \<and> UnloadDictionary k0 \<notin> set cs \<and> clocks_ok e s cs"
  then show "\<exists>c. js_get (spellCheckerTable (run e s cs)) k0 = Own c \<and> uptime c0 \<le> uptime c"
    using uptime_run by blast
qed

text \<open>
  With both dictionaries loaded, \<open>en-gb\<close> is selected at the reading 100 with uptime 0. At
  the reading 350 the dictionary is switched to \<open>en-us\<close>: the uptime of \<open>en-gb\<close> is 250 and
  the entry of \<open>en-us\<close> is as before. Then \<open>en-us\<close>, now the selected key, is unloaded: the
  call returns with nothing selected, no start timestamp and \<open>en-us\<close> gone, and the uptime
  of \<open>en-gb\<close> is still 250. After these two calls and a switch back to \<open>en-gb\<close> its uptime is
  not below the 0 it started from.
\<close>

theorem uptime_accounting_witness:
  "js_get (spellCheckerTable example_switched) ''en-gb'' = Own (example_gb\<lparr>uptime := 250\<rparr>)
   \<and> uptime_of example_switched ''en-gb'' = 0 + (350 - 100)
   \<and> js_get (spellCheckerTable example_switched) ''en-us'' = Own example_us
   \<and> currentSpellCheckerKey example_switched = Some ''en-us''
   \<and> currentSpellCheckerStartTime example_switched = Some 400
   \<and> js_get (spellCheckerTable
         (snd (switchDictionary example_env
                 (snd (switchDictionary example_env example_loaded ''en-gb'' False 0 100))
                 ''en-us'' False 350 400))) ''en-gb''
       = Own (example_gb\<lparr>uptime := 250\<rparr>)
   \<and> fst (unloadDictionary example_env example_switched ''en-us'') = Return ()
   \<and> currentSpellCheckerKey (snd (unloadDictionary example_env example_switched ''en-us'')) = None
   \<and> currentSpellCheckerStartTime (snd (unloadDictionary example_env example_switched ''en-us''))
       = None
   \<and> ''en-us'' \<notin> registered (snd (unloadDictionary example_env example_switched ''en-us''))
   \<and> js_get (spellCheckerTable (snd (unloadDictionary example_env example_switched ''en-us'')))
        ''en-gb'' = Own (example_gb\<lparr>uptime := 250\<rparr>)
   \<and> is_double (uptime example_gb)
   \<and> (\<exists>c. js_get (spellCheckerTable
               (run example_env example_selected
                  [SwitchDictionary ''en-us'' False 350 400, UnloadDictionary ''en-us'',
                   SwitchDictionary ''en-gb'' True 500 500])) ''en-gb'' = Own c
           \<and> 0 \<le> uptime c)"
proof -
  let ?cs = "[SwitchDictionary ''en-us'' False 350 400, UnloadDictionary ''en-us'',
              SwitchDictionary ''en-gb'' True 500 500]"
  have r: "fst (switchDictionary example_env example_selected ''en-us'' False 350 400) = Return ()"
    by (simp add: switchDictionary_def addUptime_def example_selected_fields js_get_def
        example_gb_def attach_def)
  have r0: "fst (switchDictionary example_env example_loaded ''en-gb'' False 0 100) = Return ()"
    by (simp add: switchDictionary_def addUptime_def example_loaded_fields example_loaded_table
        js_get_def attach_def)
  have sel: "snd (switchDictionary example_env example_loaded ''en-gb'' False 0 100)
      = example_selected"
    by (simp add: example_selected_def run_def exec_def)
  have own: "js_get (spellCheckerTable example_selected) ''en-gb'' = Own example_gb"
    by (simp add: example_selected_fields js_get_def)
  have us: "js_get (spellCheckerTable example_selected) ''en-us'' = Own example_us"
    by (simp add: example_selected_fields js_get_def)
  have up: "uptime example_gb = 0" by (simp add: example_gb_def)
  have sw: "snd (switchDictionary example_env example_selected ''en-us'' False 350 400)
      = example_switched"
    by (simp add: example_switched_def exec_def)
  have ex: "exec example_env example_selected (SwitchDictionary ''en-us'' False 350 400)
      = example_switched"
    by (simp add: example_switched_def)
  have ul: "exec example_env example_switched (UnloadDictionary ''en-us'')
      = snd (unloadDictionary example_env example_switched ''en-us'')"
    by (simp add: exec_def)
  have st: "currentSpellCheckerStartTime
      (snd (unloadDictionary example_env example_switched ''en-us'')) = None"
    by (simp add: unloadDictionary_def clearSelection_def Let_def js_get_def
        example_switched_fields)
  have ck: "clocks_ok example_env example_selected ?cs"
    by (simp add: example_selected_fields ex ul st)
  have nu: "UnloadDictionary ''en-gb'' \<notin> set ?cs" by simp
  have own2: "js_get (spellCheckerTable example_switched) ''en-us'' = Own example_us"
    by (simp add: example_switched_fields js_get_def)
  have reach: "js_get (spellCheckerTable (run example_env initial example_calls)) ''en-gb''
      = Own example_gb"
    by (simp add: example_loaded_def[symmetric] example_loaded_table js_get_def)
  note a = uptime_accounting[where s = example_selected and cur = "''en-gb''" and ?t0.0 = 100
      and c = example_gb and e = example_env and key = "''en-us''" and checkAll = False
      and ?now1.0 = 350 and ?now2.0 = 400, THEN conjunct1]
  from a r own us up example_selected_fields(2,3)
  have 1: "js_get (spellCheckerTable example_switched) ''en-gb'' = Own (example_gb\<lparr>uptime := 250\<rparr>)
   \<and> uptime_of example_switched ''en-gb'' = 0 + (350 - 100)
   \<and> js_get (spellCheckerTable example_switched) ''en-us'' = Own example_us
   \<and> currentSpellCheckerKey example_switched = Some ''en-us''
   \<and> currentSpellCheckerStartTime example_switched = Some 400"
    by (simp add: sw to_double_exact)
  note b = uptime_accounting[where s = example_loaded and e = example_env
      and ?k1.0 = "''en-gb''" and ca = False and ?n1.0 = 0 and ?n2.0 = 100 and ?c1.0 = example_gb
      and ?k2.0 = "''en-us''" and cb = False and ?n3.0 = 350 and ?n4.0 = 400,
      THEN conjunct2, THEN conjunct1]
  from b r0 r own up
  have 2: "js_get (spellCheckerTable
         (snd (switchDictionary example_env
                 (snd (switchDictionary example_env example_loaded ''en-gb'' False 0 100))
                 ''en-us'' False 350 400))) ''en-gb''
       = Own (example_gb\<lparr>uptime := 250\<rparr>)"
    by (simp add: sel to_double_exact)
  note u = uptime_accounting[where s = example_switched and key = "''en-us''"
      and dict = example_us and e = example_env, THEN conjunct2, THEN conjunct2]
  from u[THEN conjunct1] u[THEN conjunct2, THEN conjunct1] own2 example_switched_fields(2) 1
  have 3: "fst (unloadDictionary example_env example_switched ''en-us'') = Return ()
   \<and> currentSpellCheckerKey (snd (unloadDictionary example_env example_switched ''en-us'')) = None
   \<and> currentSpellCheckerStartTime (snd (unloadDictionary example_env example_switched ''en-us''))
       = None
   \<and> ''en-us'' \<notin> registered (snd (unloadDictionary example_env example_switched ''en-us''))
   \<and> js_get (spellCheckerTable (snd (unloadDictionary example_env example_switched ''en-us'')))
        ''en-gb'' = Own (example_gb\<lparr>uptime := 250\<rparr>)"
    by simp
  note m = uptime_accounting[where e = example_env and ?cs0.0 = example_calls
      and k' = "''en-gb''" and c' = example_gb and s = example_selected and ?k0.0 = "''en-gb''"
      and ?c0.0 = example_gb and cs = ?cs,
      THEN conjunct2, THEN conjunct2, THEN conjunct2, THEN conjunct2]
  from m[THEN conjunct1] reach have 4: "is_double (uptime example_gb)" by simp
  from m[THEN conjunct2] own 4 nu ck
  have 5: "\<exists>c. js_get (spellCheckerTable (run example_env example_selected ?cs)) ''en-gb'' = Own c
           \<and> 0 \<le> uptime c"
    by (simp add: up)
  from 1 2 3 4 5 show ?thesis by simp
qed

text \<open>
  Unloading the selected dictionary adds no elapsed time. Here \<open>en-us\<close> has been selected
  since the reading 400 and has uptime 0. The first block of \<open>unloadDictionary\<close> clears the
  selection and the start timestamp and leaves the uptime at 0, the disposer leaves it at 0,
  and then the entry is removed. And \<^verbatim>\<open>Date.now()\<close> is the wall clock: when it has been set
  back to 300 by the next switch, the uptime of \<open>en-us\<close> drops to -100.
\<close>

theorem unload_selected_adds_no_uptime:
  "currentSpellCheckerKey example_switched = Some ''en-us''
   \<and> currentSpellCheckerStartTime example_switched = Some 400
   \<and> uptime_of example_switched ''en-us'' = 0
   \<and> currentSpellCheckerKey (clearSelection example_env example_switched ''en-us'') = None
   \<and> currentSpellCheckerStartTime (clearSelection example_env example_switched ''en-us'') = None
   \<and> uptime_of (clearSelection example_env example_switched ''en-us'') ''en-us'' = 0
   \<and> uptime_of (run_dispose example_env (clearSelection example_env example_switched ''en-us'')
                  (dispose example_us)) ''en-us'' = 0
   \<and> spellCheckerTable (snd (unloadDictionary example_env example_switched ''en-us''))
       = [(''en-gb'', example_gb\<lparr>uptime := 250\<rparr>)]
   \<and> uptime_of (snd (switchDictionary example_env example_switched ''en-gb'' False 300 300))
        ''en-us'' = - 100"
  by (simp add: example_switched_fields uptime_of_def clearSelection_def setProvider_def
      js_get_def example_us_def unloadDictionary_def Let_def js_delete_def
      object_prototype_keys_def switchDictionary_def addUptime_def attach_def js_set_def
      to_double_exact)

section \<open>The list of available dictionaries\<close>

text \<open>
  Claim C7. The own keys of a JavaScript object are distinct; for every such table
  \<open>availableDictionaries\<close> returns exactly the registered keys, each of them once, in an
  order in which the accumulated uptime never increases. After a successful
  \<open>loadDictionary\<close> the key that was loaded is in the list exactly once.
\<close>

theorem availableDictionaries_spec:
  assumes d: "distinct (map fst (spellCheckerTable s))"
  shows "set (availableDictionaries s) = registered s
       \<and> distinct (availableDictionaries s)
       \<and> (\<forall>k\<in>registered s. count_list (availableDictionaries s) k = 1)
       \<and> sorted_wrt (\<lambda>a b. uptime_of s b \<le> uptime_of s a) (availableDictionaries s)
       \<and> (loadDictionary e s key dic aff = (Return (), s')
            \<longrightarrow> count_list (availableDictionaries s') key = 1)"
proof -
  have m: "mset (availableDictionaries s) = mset (map fst (spellCheckerTable s))" for s
    by (simp add: availableDictionaries_keys mset_object_keys)
  have st: "set (availableDictionaries s) = registered s" for s
    using mset_eq_setD[OF m[of s]] by (simp add: registered_def)
  have di: "distinct (availableDictionaries s)"
    if "distinct (map fst (spellCheckerTable s))" for s
    using that mset_eq_imp_distinct_iff[OF m[of s]] by simp
  have "count_list (availableDictionaries s') key = 1"
    if l: "loadDictionary e s key dic aff = (Return (), s')"
  proof -
    from loadDictionary_table[OF l] obtain c where
      t': "spellCheckerTable s' = spellCheckerTable s @ [(key, c)]"
      and fresh: "key \<notin> fst ` set (spellCheckerTable s)" by blast
    have "distinct (map fst (spellCheckerTable s'))" using d fresh by (simp add: t')
    moreover have "key \<in> registered s'" by (simp add: registered_def t')
    ultimately show ?thesis by (simp add: count_list_distinct di st)
  qed
  then show ?thesis
    using st[of s] di[OF d] availableDictionaries_sorted[OF d]
    by (simp add: count_list_distinct)
qed

theorem availableDictionaries_spec_witness:
  "availableDictionaries example_switched = [''en-gb'', ''en-us'']
   \<and> registered example_switched = {''en-us'', ''en-gb''}
   \<and> uptime_of example_switched ''en-gb'' = 250
   \<and> uptime_of example_switched ''en-us'' = 0
   \<and> count_list
        (availableDictionaries
           (snd (loadDictionary example_env example_switched ''fr''
                   (Path ''/dict/fr.dic'') (Path ''/dict/fr.aff'')))) ''fr'' = 1"
proof -
  have d: "distinct (map fst (spellCheckerTable example_switched))"
    by (simp add: example_switched_fields)
  have l: "loadDictionary example_env example_switched ''fr'' (Path ''/dict/fr.dic'') (Path ''/dict/fr.aff'')
      = (Return (), snd (loadDictionary example_env example_switched ''fr''
                   (Path ''/dict/fr.dic'') (Path ''/dict/fr.aff'')))"
    by (simp add: loadDictionary_def js_get_def object_prototype_keys_def example_switched_fields
        mountFileDictionary_eq)
  have a: "availableDictionaries example_switched = [''en-gb'', ''en-us'']"
    by (simp add: availableDictionaries_def orderBy_desc_def object_entries_def Let_def
        is_array_index_def is_digit_def example_switched_fields example_us_def example_gb_def)
  have u: "uptime_of example_switched ''en-gb'' = 250" "uptime_of example_switched ''en-us'' = 0"
    by (simp_all add: uptime_of_def js_get_def example_switched_fields example_us_def example_gb_def)
  have r: "registered example_switched = {''en-us'', ''en-gb''}"
    by (simp add: registered_def example_switched_fields)
  from availableDictionaries_spec[OF d, of example_env "''fr''" "Path ''/dict/fr.dic''"
      "Path ''/dict/fr.aff''" "snd (loadDictionary example_env example_switched ''fr''
                   (Path ''/dict/fr.dic'') (Path ''/dict/fr.aff''))"] l a u r
  show ?thesis by simp
qed

section \<open>Mounting the files of a dictionary\<close>




section \<open>Keys that name a member of \<^verbatim>\<open>Object.prototype\<close>\<close>

text \<open>
  Claim C4 says that \<open>switchDictionary\<close> throws the not-available error for every key that
  is not registered and leaves the selection as it was. The code does so for the empty key
  and for every key that is neither registered nor the name of a member of
  \<^verbatim>\<open>Object.prototype\<close> (\<open>switchDictionary_unregistered\<close>). For \<open>constructor\<close> it does not:
  the guard reads \<^verbatim>\<open>this.spellCheckerTable['constructor']\<close>, finds the inherited function,
  and the call returns, with \<open>constructor\<close> as the selected dictionary, a new start timestamp
  and a callback installed for it.
\<close>

theorem switchDictionary_inherited_key:
  "''constructor'' \<notin> registered example_loaded
   \<and> selectedDictionary example_loaded = None
   \<and> fst (switchDictionary example_env example_loaded ''constructor'' False 5 5) = Return ()
   \<and> selectedDictionary (snd (switchDictionary example_env example_loaded ''constructor'' False 5 5))
       = Some ''constructor''
   \<and> currentSpellCheckerStartTime
        (snd (switchDictionary example_env example_loaded ''constructor'' False 5 5)) = Some 5
   \<and> webFrameProvider (snd (switchDictionary example_env example_loaded ''constructor'' False 5 5))
       = Some (''constructor'', Provider ''constructor'' False)"
  by (simp add: switchDictionary_def addUptime_def attach_def setProvider_def example_loaded_table
      example_loaded_fields js_get_def object_prototype_keys_def selectedDictionary_def
      registered_def example_renderer)

text \<open>
  Claim C6 says that \<open>getSuggestion\<close> returns the empty list and never throws when the
  selected key has no entry in the table. The code does so when no key is selected and when
  the lookup of the selected key is undefined (\<open>getSuggestion_empty\<close>), and it returns the
  engine's list as it is when the key has an entry (\<open>getSuggestion_selected\<close>). With
  \<open>constructor\<close> selected, which has no entry, the lookup finds the inherited function, the
  test \<^verbatim>\<open>!checker\<close> passes it on, and \<^verbatim>\<open>checker.spellChecker.suggest\<close> throws a
  \<^verbatim>\<open>TypeError\<close>.
\<close>

theorem getSuggestion_inherited_key:
  "selectedDictionary example_misselected = Some ''constructor''
   \<and> ''constructor'' \<notin> registered example_misselected
   \<and> fst (getSuggestion example_misselected ''colr'') = Throw TypeError"
  by (simp add: example_misselected_def getSuggestion_def switchDictionary_def addUptime_def
      attach_def setProvider_def example_loaded_table example_loaded_fields js_get_def
      object_prototype_keys_def selectedDictionary_def registered_def example_renderer)

text \<open>
  Claim C8 says that \<open>unloadDictionary\<close> is a logged no-op for a key that is absent. The
  code is one for the empty key and for every key whose lookup is undefined
  (\<open>unloadDictionary_absent\<close>), and for a registered key it clears the selection first when
  the key is the selected one, then runs the disposer, then removes the entry
  (\<open>unloadDictionary_selected\<close>, \<open>unloadDictionary_not_selected\<close>). For \<open>constructor\<close>, which
  is absent, the guard finds the inherited function and \<^verbatim>\<open>dict.dispose()\<close> throws a
  \<^verbatim>\<open>TypeError\<close>; when \<open>constructor\<close> is the selected key the selection has been cleared
  by then.
\<close>

theorem unloadDictionary_inherited_key:
  "''constructor'' \<notin> registered example_loaded
   \<and> fst (unloadDictionary example_env example_loaded ''constructor'') = Throw TypeError
   \<and> fst (unloadDictionary example_env example_misselected ''constructor'') = Throw TypeError
   \<and> selectedDictionary (snd (unloadDictionary example_env example_misselected ''constructor''))
       = None"
  by (simp add: example_misselected_def unloadDictionary_def clearSelection_def
      switchDictionary_def addUptime_def attach_def setProvider_def example_loaded_table
      example_loaded_fields js_get_def object_prototype_keys_def selectedDictionary_def
      registered_def example_renderer)

text \<open>
  Claim C1 says that the callback installed by \<open>switchDictionary(key, checkAllDictionaries)\<close>
  asks the primary dictionary first and returns a verdict for every word. The code does so
  for every key that has an entry in the table (\<open>registered_callback_policy\<close>). For
  \<open>constructor\<close>, which has none, \<open>switchDictionary\<close> returns all the same and installs the
  callback; on every word the callback reads \<^verbatim>\<open>this.spellCheckerTable['constructor']\<close>, finds
  the inherited function, and \<^verbatim>\<open>primaryChecker.spellChecker.spell\<close> throws a \<^verbatim>\<open>TypeError\<close>
  before any dictionary has been asked, though \<open>en-us\<close> is loaded and accepts the word.
\<close>

theorem callback_inherited_key:
  "''constructor'' \<notin> registered example_loaded
   \<and> fst (switchDictionary example_env example_loaded ''constructor'' True 5 5) = Return ()
   \<and> webFrameProvider example_inherited = Some (''constructor'', Provider ''constructor'' True)
   \<and> registered example_inherited = {''en-us'', ''en-gb''}
   \<and> accepts example_inherited ''en-us'' ''color''
   \<and> fst (invoke example_inherited (Provider ''constructor'' True) ''color'') = Throw TypeError
   \<and> queried (new_events example_inherited
        (snd (invoke example_inherited (Provider ''constructor'' True) ''color''))) = []
   \<and> fst (invoke example_inherited (Provider ''constructor'' True) ''colr'') = Throw TypeError
   \<and> webFrameProvider example_misselected = Some (''constructor'', Provider ''constructor'' False)
   \<and> fst (invoke example_misselected (Provider ''constructor'' False) ''color'') = Throw TypeError"
proof -
  have 1: "''constructor'' \<notin> registered example_loaded"
    by (simp add: registered_def example_loaded_table)
  have 2: "fst (switchDictionary example_env example_loaded ''constructor'' True 5 5) = Return ()"
    by (simp add: switchDictionary_def addUptime_def attach_def example_loaded_table
        example_loaded_fields js_get_def object_prototype_keys_def)
  have 3: "registered example_inherited = {''en-us'', ''en-gb''}"
    by (simp add: registered_def example_inherited_fields)
  have 4: "accepts example_inherited ''en-us'' ''color''"
    by (simp add: accepts_def js_get_def example_inherited_fields example_us_def example_env_def
        example_words_def)
  have i: "js_get (spellCheckerTable example_inherited) ''constructor'' = Inherited"
    "js_get (spellCheckerTable example_misselected) ''constructor'' = Inherited"
    by (simp_all add: js_get_def example_inherited_fields example_misselected_fields
        object_prototype_keys_def)
  from 1 2 3 4 show ?thesis
    by (simp add: invoke_inherited[OF i(1)] invoke_inherited[OF i(2)] new_events_same
        example_inherited_fields example_misselected_fields)
qed

text \<open>
  Claim C10 says that the callback installed by \<open>switchDictionary(key, true)\<close> reads the table
  afresh on every invocation, so that a dictionary loaded after the switch is consulted. The
  code does so for every key that has an entry in the table
  (\<open>registered_callback_reads_table\<close>). For \<open>constructor\<close> the switch returns and installs the
  callback; \<open>en-gb\<close> is loaded after that and accepts the word, the host still holds the
  callback, and the callback throws a \<^verbatim>\<open>TypeError\<close> at its first lookup: neither \<open>en-gb\<close> nor
  any other dictionary is asked.
\<close>

theorem callback_inherited_key_after_load:
  "''constructor'' \<notin> registered example_start
   \<and> fst (switchDictionary example_env example_start ''constructor'' True 5 5) = Return ()
   \<and> registered example_inherited_start = {''en-us''}
   \<and> webFrameProvider example_inherited_later
       = Some (''constructor'', Provider ''constructor'' True)
   \<and> registered example_inherited_later = {''en-us'', ''en-gb''}
   \<and> accepts example_inherited_later ''en-gb'' ''colour''
   \<and> fst (invoke example_inherited_later (Provider ''constructor'' True) ''colour'')
       = Throw TypeError
   \<and> queried (new_events example_inherited_later
        (snd (invoke example_inherited_later (Provider ''constructor'' True) ''colour''))) = []"
proof -
  have 1: "''constructor'' \<notin> registered example_start"
    by (simp add: registered_def example_start_fields)
  have 2: "fst (switchDictionary example_env example_start ''constructor'' True 5 5) = Return ()"
    by (simp add: switchDictionary_def addUptime_def attach_def example_start_fields js_get_def
        object_prototype_keys_def)
  have 3: "registered example_inherited_start = {''en-us''}"
    "registered example_inherited_later = {''en-us'', ''en-gb''}"
    by (simp_all add: registered_def example_inherited_start_fields
        example_inherited_later_fields)
  have 4: "accepts example_inherited_later ''en-gb'' ''colour''"
    by (simp add: accepts_def js_get_def example_inherited_later_fields example_gb_def
        example_env_def example_words_def)
  have i: "js_get (spellCheckerTable example_inherited_later) ''constructor'' = Inherited"
    by (simp add: js_get_def example_inherited_later_fields object_prototype_keys_def)
  from 1 2 3 4 show ?thesis
    by (simp add: invoke_inherited[OF i] new_events_same example_inherited_later_fields)
qed

end
